theory Spec2Isabelle
  imports Complex_Main "HOL-Library.Char_ord" "HOL-Library.List_Lexorder"
begin

section \<open>Loan monitoring pipeline (loan\_monitor.py)\<close>

text \<open>
  A shallow embedding of \<^verbatim>\<open>src/loan_monitor.py\<close>: the selection query and the pandas
  post-processing of \<^verbatim>\<open>fetch_due_loans\<close>, the workbook built by
  \<^verbatim>\<open>generate_excel_report\<close>, the HTML body built by \<^verbatim>\<open>build_email_body\<close>,
  \<^verbatim>\<open>send_email\<close> and \<^verbatim>\<open>main\<close>.

  Conventions of the embedding.
  \<^item> A \<^verbatim>\<open>datetime.date\<close> is its proleptic Gregorian ordinal (\<^verbatim>\<open>date.toordinal()\<close>), an
    \<open>int\<close>: \<^verbatim>\<open>d + timedelta(days=n)\<close> is \<open>d + n\<close> and \<^verbatim>\<open>(d - today).days\<close> is
    \<open>d - today\<close>. The dates of \<^verbatim>\<open>datetime.date\<close> are the ordinals 1 to 3652059 (years
    1 to 9999), \<open>valid_date\<close>; the addition of the lookahead window raises
    \<^verbatim>\<open>OverflowError\<close> outside them (\<open>date_add\<close>). The clock reads dates at least seven
    days before \<^verbatim>\<open>date.max\<close>, so that the \<^verbatim>\<open>today + timedelta(days=7)\<close> of the subtitle
    is a date.
  \<^item> A text is the list of the bytes of its UTF-8 encoding.
  \<^item> Money columns are \<open>real\<close>; the rounding of binary floating point is not modelled.
  \<^item> Every \<^verbatim>\<open>date.today()\<close> of the source is a read of the clock of the \<open>world\<close>, in the
    order in which the source performs them.
  \<^item> An exception is a value \<open>Inl e\<close> of the result.
  \<^item> The configuration is loaded and the connection is open when the run starts. A failure
    of the data source to answer the query and a failure of the file system to store the
    workbook are not modelled; columns are never \<^verbatim>\<open>NULL\<close>.
  \<^item> \<^verbatim>\<open>pd.to_datetime\<close> converts the texts of a column in the form of its first text, as
    pandas does from version 2. The bounds of the nanosecond timestamps of pandas before
    version 3 (years 1677 to 2262) are not modelled.
\<close>

subsection \<open>Python's calendar and text helpers\<close>

type_synonym date = int

definition DAYS_IN_MONTH :: "int \<Rightarrow> int" where
  "DAYS_IN_MONTH m =
     (if m = 2 then 28 else if m = 4 \<or> m = 6 \<or> m = 9 \<or> m = 11 then 30 else 31)"

definition DAYS_BEFORE_MONTH :: "int \<Rightarrow> int" where
  "DAYS_BEFORE_MONTH m =
     (if m = 1 then 0 else if m = 2 then 31 else if m = 3 then 59 else if m = 4 then 90
      else if m = 5 then 120 else if m = 6 then 151 else if m = 7 then 181
      else if m = 8 then 212 else if m = 9 then 243 else if m = 10 then 273
      else if m = 11 then 304 else 334)"

text \<open>\<^verbatim>\<open>datetime._ord2ymd\<close>: the (year, month, day) of an ordinal, ordinal 1 being 0001-01-01.\<close>

definition ord2ymd :: "date \<Rightarrow> int \<times> int \<times> int" where
  "ord2ymd n =
     (let n0 = n - 1;
          n400 = n0 div 146097; r400 = n0 mod 146097;
          n100 = r400 div 36524; r100 = r400 mod 36524;
          n4 = r100 div 1461; r4 = r100 mod 1461;
          n1 = r4 div 365; r1 = r4 mod 365;
          year = n400 * 400 + 1 + n100 * 100 + n4 * 4 + n1
      in if n1 = 4 \<or> n100 = 4 then (year - 1, 12, 31)
         else
           let leapyear = (n1 = 3 \<and> (n4 \<noteq> 24 \<or> n100 = 3));
               month = (r1 + 50) div 32;
               preceding = DAYS_BEFORE_MONTH month + (if month > 2 \<and> leapyear then 1 else 0)
           in if preceding > r1
              then let month' = month - 1;
                       preceding' = preceding
                         - (DAYS_IN_MONTH month' + (if month' = 2 \<and> leapyear then 1 else 0))
                   in (year, month', r1 - preceding' + 1)
              else (year, month, r1 - preceding + 1))"

definition year_of :: "date \<Rightarrow> int" where
  "year_of d = fst (ord2ymd d)"

definition month_of :: "date \<Rightarrow> int" where
  "month_of d = fst (snd (ord2ymd d))"

definition day_of :: "date \<Rightarrow> int" where
  "day_of d = snd (snd (ord2ymd d))"

text \<open>
  \<^verbatim>\<open>datetime._is_leap\<close>, \<^verbatim>\<open>_days_before_year\<close>, \<^verbatim>\<open>_days_in_month\<close>,
  \<^verbatim>\<open>_days_before_month\<close> and \<^verbatim>\<open>_ymd2ord\<close>, the ordinal of a (year, month, day), without
  the assertions on its arguments.
\<close>

definition is_leap :: "int \<Rightarrow> bool" where
  "is_leap year \<longleftrightarrow> year mod 4 = 0 \<and> (year mod 100 \<noteq> 0 \<or> year mod 400 = 0)"

definition days_before_year :: "int \<Rightarrow> int" where
  "days_before_year year =
     (let y = year - 1 in y * 365 + y div 4 - y div 100 + y div 400)"

definition days_in_month :: "int \<Rightarrow> int \<Rightarrow> int" where
  "days_in_month year month =
     (if month = 2 \<and> is_leap year then 29 else DAYS_IN_MONTH month)"

definition days_before_month :: "int \<Rightarrow> int \<Rightarrow> int" where
  "days_before_month year month =
     DAYS_BEFORE_MONTH month + (if month > 2 \<and> is_leap year then 1 else 0)"

definition ymd2ord :: "int \<Rightarrow> int \<Rightarrow> int \<Rightarrow> date" where
  "ymd2ord year month day = days_before_year year + days_before_month year month + day"

text \<open>\<^verbatim>\<open>date.max.toordinal()\<close>, and the ordinals that are a \<^verbatim>\<open>datetime.date\<close>.\<close>

definition MAXORDINAL :: int where
  "MAXORDINAL = 3652059"

definition valid_date :: "date \<Rightarrow> bool" where
  "valid_date d \<longleftrightarrow> 1 \<le> d \<and> d \<le> MAXORDINAL"

text \<open>\<^verbatim>\<open>date.weekday()\<close>: Monday is 0.\<close>

definition weekday :: "date \<Rightarrow> int" where
  "weekday d = (d + 6) mod 7"

definition digit_char :: "nat \<Rightarrow> char" where
  "digit_char k = ''0123456789'' ! (k mod 10)"

fun str_nat :: "nat \<Rightarrow> string" where
  "str_nat n = (if n < 10 then [digit_char n] else str_nat (n div 10) @ [digit_char n])"

text \<open>\<^verbatim>\<open>str(n)\<close> of a Python int.\<close>

definition str_int :: "int \<Rightarrow> string" where
  "str_int i = (if i < 0 then CHR ''-'' # str_nat (nat (- i)) else str_nat (nat i))"

text \<open>A decimal number zero-padded to a width, as the \<^verbatim>\<open>%04d\<close> and \<^verbatim>\<open>%02d\<close> of the calendar formats.\<close>

definition zpad :: "nat \<Rightarrow> int \<Rightarrow> string" where
  "zpad w i = (let s = str_int i in replicate (w - length s) CHR ''0'' @ s)"

text \<open>\<^verbatim>\<open>str(d)\<close> of a date, that is \<^verbatim>\<open>d.isoformat()\<close>: \<^verbatim>\<open>YYYY-MM-DD\<close>.\<close>

definition isoformat :: "date \<Rightarrow> string" where
  "isoformat d = zpad 4 (year_of d) @ ''-'' @ zpad 2 (month_of d) @ ''-'' @ zpad 2 (day_of d)"

definition day_name :: "int \<Rightarrow> string" where
  "day_name k =
     (if k = 0 then ''Monday'' else if k = 1 then ''Tuesday'' else if k = 2 then ''Wednesday''
      else if k = 3 then ''Thursday'' else if k = 4 then ''Friday''
      else if k = 5 then ''Saturday'' else ''Sunday'')"

definition month_name :: "int \<Rightarrow> string" where
  "month_name m =
     (if m = 1 then ''January'' else if m = 2 then ''February'' else if m = 3 then ''March''
      else if m = 4 then ''April'' else if m = 5 then ''May'' else if m = 6 then ''June''
      else if m = 7 then ''July'' else if m = 8 then ''August''
      else if m = 9 then ''September'' else if m = 10 then ''October''
      else if m = 11 then ''November'' else ''December'')"

text \<open>
  \<^verbatim>\<open>date.strftime\<close> in the C locale, for the directives the program uses:
  \<^verbatim>\<open>%Y %m %d %A %B %b\<close>; every other character is copied. (The padding of \<^verbatim>\<open>%Y\<close> for a
  year below 1000 is that of Python 3.13; earlier versions leave it to the platform.)
\<close>

fun strftime :: "string \<Rightarrow> date \<Rightarrow> string" where
  "strftime [] d = []"
| "strftime [c] d = [c]"
| "strftime (c # e # cs) d =
     (if c = CHR ''%'' then
        (if e = CHR ''Y'' then zpad 4 (year_of d)
         else if e = CHR ''m'' then zpad 2 (month_of d)
         else if e = CHR ''d'' then zpad 2 (day_of d)
         else if e = CHR ''A'' then day_name (weekday d)
         else if e = CHR ''B'' then month_name (month_of d)
         else if e = CHR ''b'' then take 3 (month_name (month_of d))
         else [c, e]) @ strftime cs d
      else c # strftime (e # cs) d)"

subsection \<open>The data source\<close>

text \<open>
  The value of the column \<^verbatim>\<open>l.due_date\<close> as the data source holds it; SQLite, the default
  store, keeps it as text.
  \<^item> \<open>DateCell d\<close> is the ISO text \<^verbatim>\<open>YYYY-MM-DD\<close> of the date \<open>d\<close> (in MySQL and
    PostgreSQL the value \<open>d\<close> of a \<^verbatim>\<open>DATE\<close> column).
  \<^item> \<open>StampCell d t\<close> is the ISO text of \<open>d\<close> followed by a space and the time of day
    \<open>t\<close>, as in \<^verbatim>\<open>2024-01-22 00:00:00\<close>; pandas reads it as a timestamp of the day \<open>d\<close>.
  \<^item> \<open>EmptyCell\<close> is the empty text, which pandas reads as \<^verbatim>\<open>NaT\<close>.
  \<^item> \<open>TextCell s\<close> is a text \<open>s\<close> that the date conversion of pandas rejects.

  A text of another form that pandas accepts, such as \<^verbatim>\<open>01/02/2030\<close>, is not among them.
\<close>

datatype sql_date = DateCell date | StampCell date string | EmptyCell | TextCell string

record customer =
  customer_id :: int
  full_name :: string
  phone_number :: string
  email :: string

record branch =
  branch_id :: int
  loan_officer :: string
  branch_name :: string

record loan =
  loan_id :: string
  l_customer_id :: int
  l_branch_id :: int
  amount_borrowed :: real
  outstanding_balance :: real
  due_date :: sql_date
  loan_status :: string

record conn =
  loans :: "loan list"
  customers :: "customer list"
  branches :: "branch list"

text \<open>One row of the result of the \<^verbatim>\<open>SELECT\<close>, under the aliases of the query.\<close>

record raw_row =
  r_customer_name :: string
  r_loan_id :: string
  r_amount_borrowed :: real
  r_outstanding_balance :: real
  r_due_date :: sql_date
  r_phone_number :: string
  r_email :: string
  r_loan_officer :: string
  r_branch :: string
  r_loan_status :: string

text \<open>One row of the frame that \<^verbatim>\<open>fetch_due_loans\<close> returns, in the order of its columns.\<close>

record report_row =
  customer_name :: string
  loan_ident :: string
  amount :: real
  outstanding :: real
  due :: date
  days_remaining :: int
  phone :: string
  email_address :: string
  officer_branch :: string
  status :: string

text \<open>
  The exceptions of a run. \<open>ParserError s\<close> is the failure of the date conversion at the
  text \<open>s\<close>, \<open>TypeError\<close> that of \<^verbatim>\<open>NaT - today\<close>.
\<close>

datatype error =
    ParserError string
  | OverflowError
  | TypeError
  | NoOptionError string
  | FileNotFoundError string
  | SMTPException string

text \<open>
  \<^verbatim>\<open>d + timedelta(days=n)\<close>: \<^verbatim>\<open>timedelta\<close> takes at most 999999999 days, and the sum is a
  date or the addition raises.
\<close>

definition date_add :: "date \<Rightarrow> int \<Rightarrow> error + date" where
  "date_add d n =
     (if \<bar>n\<bar> \<le> 999999999 \<and> valid_date (d + n) then Inr (d + n) else Inl OverflowError)"

text \<open>The text that the store compares.\<close>

fun cell_text :: "sql_date \<Rightarrow> string" where
  "cell_text (DateCell d) = isoformat d"
| "cell_text (StampCell d t) = isoformat d @ '' '' @ t"
| "cell_text EmptyCell = []"
| "cell_text (TextCell s) = s"

text \<open>
  The comparison of the column with a bound parameter \<^verbatim>\<open>str(d)\<close>, the text
  \<^verbatim>\<open>YYYY-MM-DD\<close>: bytewise, as text. (A \<^verbatim>\<open>DATE\<close> column is compared by date; for the dates
  of \<^verbatim>\<open>datetime.date\<close> that is the order of their ISO texts, lemma \<open>isoformat_le_iff\<close>.)
\<close>

definition sql_le :: "sql_date \<Rightarrow> date \<Rightarrow> bool" where
  "sql_le c d \<longleftrightarrow> cell_text c \<le> isoformat d"

definition sql_ge :: "sql_date \<Rightarrow> date \<Rightarrow> bool" where
  "sql_ge c d \<longleftrightarrow> isoformat d \<le> cell_text c"

text \<open>The order of two values of the column, for \<^verbatim>\<open>ORDER BY l.due_date ASC\<close>.\<close>

definition sql_date_le :: "sql_date \<Rightarrow> sql_date \<Rightarrow> bool" where
  "sql_date_le c c' \<longleftrightarrow> cell_text c \<le> cell_text c'"

text \<open>\<^verbatim>\<open>FROM loans l JOIN customers c ON ... JOIN branches b ON ...\<close>\<close>

definition joined :: "conn \<Rightarrow> (loan \<times> customer \<times> branch) list" where
  "joined db =
     [(l, c, b). l \<leftarrow> loans db,
                 c \<leftarrow> customers db, l_customer_id l = customer_id c,
                 b \<leftarrow> branches db, l_branch_id l = branch_id b]"

text \<open>
  The \<^verbatim>\<open>WHERE\<close> clause: \<^verbatim>\<open>l.due_date <= :cutoff\<close> when overdue loans are included,
  \<^verbatim>\<open>l.due_date BETWEEN :today AND :cutoff\<close> otherwise, and \<^verbatim>\<open>l.loan_status != 'Paid'\<close>.
\<close>

definition due_filter :: "bool \<Rightarrow> date \<Rightarrow> date \<Rightarrow> loan \<Rightarrow> bool" where
  "due_filter include_overdue today cutoff l =
     (if include_overdue then sql_le (due_date l) cutoff
      else sql_ge (due_date l) today \<and> sql_le (due_date l) cutoff)"

definition where_clause :: "bool \<Rightarrow> date \<Rightarrow> date \<Rightarrow> loan \<times> customer \<times> branch \<Rightarrow> bool" where
  "where_clause include_overdue today cutoff j =
     (due_filter include_overdue today cutoff (fst j) \<and> loan_status (fst j) \<noteq> ''Paid'')"

text \<open>
  \<^verbatim>\<open>ORDER BY l.due_date ASC\<close>. SQL leaves the order of rows of equal date open; here
  they stay in the order of the join.
\<close>

fun insert_by_due ::
  "loan \<times> customer \<times> branch \<Rightarrow> (loan \<times> customer \<times> branch) list
     \<Rightarrow> (loan \<times> customer \<times> branch) list" where
  "insert_by_due j [] = [j]"
| "insert_by_due j (k # ks) =
     (if sql_date_le (due_date (fst j)) (due_date (fst k)) then j # k # ks
      else k # insert_by_due j ks)"

definition order_by_due ::
  "(loan \<times> customer \<times> branch) list \<Rightarrow> (loan \<times> customer \<times> branch) list" where
  "order_by_due js = foldr insert_by_due js []"

definition select_columns :: "loan \<times> customer \<times> branch \<Rightarrow> raw_row" where
  "select_columns j =
     (case j of (l, c, b) \<Rightarrow>
        \<lparr> r_customer_name = full_name c,
          r_loan_id = loan_id l,
          r_amount_borrowed = amount_borrowed l,
          r_outstanding_balance = outstanding_balance l,
          r_due_date = due_date l,
          r_phone_number = phone_number c,
          r_email = email c,
          r_loan_officer = loan_officer b,
          r_branch = branch_name b,
          r_loan_status = loan_status l \<rparr>)"

text \<open>\<^verbatim>\<open>pd.read_sql_query(query, conn, params)\<close> with the query of \<^verbatim>\<open>fetch_due_loans\<close>.\<close>

definition read_sql_query :: "conn \<Rightarrow> bool \<Rightarrow> date \<Rightarrow> date \<Rightarrow> raw_row list" where
  "read_sql_query db include_overdue today cutoff =
     map select_columns
       (order_by_due (filter (where_clause include_overdue today cutoff) (joined db)))"

subsection \<open>The report frame\<close>

text \<open>
  The form of a text that pandas reads as a date or a timestamp, and the day it reads. The
  text of a \<open>DateCell\<close> or \<open>StampCell\<close> whose day is no \<^verbatim>\<open>datetime.date\<close> has no form (its
  year is not one of 1 to 9999).
\<close>

datatype form = IsoDate | IsoStamp

fun cell_form :: "sql_date \<Rightarrow> form option" where
  "cell_form (DateCell d) = (if valid_date d then Some IsoDate else None)"
| "cell_form (StampCell d t) = (if valid_date d then Some IsoStamp else None)"
| "cell_form EmptyCell = None"
| "cell_form (TextCell s) = None"

fun cell_day :: "sql_date \<Rightarrow> date" where
  "cell_day (DateCell d) = d"
| "cell_day (StampCell d t) = d"
| "cell_day EmptyCell = 0"
| "cell_day (TextCell s) = 0"

text \<open>
  The conversion of a column in the form \<open>f\<close>, which is \<open>None\<close> until the first text that
  is not empty gives it: an empty text becomes \<^verbatim>\<open>NaT\<close> (\<open>None\<close>), a text of the form
  becomes its day, any other text raises.
\<close>

fun convert :: "form option \<Rightarrow> sql_date list \<Rightarrow> error + date option list" where
  "convert f [] = Inr []"
| "convert f (c # cs) =
     (if c = EmptyCell then
        (case convert f cs of Inl e \<Rightarrow> Inl e | Inr ds \<Rightarrow> Inr (None # ds))
      else
        (case cell_form c of
           None \<Rightarrow> Inl (ParserError (cell_text c))
         | Some g \<Rightarrow>
             if f = None \<or> f = Some g then
               (case convert (Some g) cs of
                  Inl e \<Rightarrow> Inl e
                | Inr ds \<Rightarrow> Inr (Some (cell_day c) # ds))
             else Inl (ParserError (cell_text c))))"

text \<open>
  \<^verbatim>\<open>pd.to_datetime(column).dt.date\<close>: the dates of the column, \<open>None\<close> for \<^verbatim>\<open>NaT\<close>, or the
  exception raised at the first text that is not converted.
\<close>

definition to_datetime :: "sql_date list \<Rightarrow> error + date option list" where
  "to_datetime cs = convert None cs"

text \<open>
  \<^verbatim>\<open>column.apply(lambda d: (d - today).days)\<close> raises at a \<^verbatim>\<open>NaT\<close>; otherwise the column
  holds dates.
\<close>

definition dates_of :: "date option list \<Rightarrow> error + date list" where
  "dates_of ds = (if None \<in> set ds then Inl TypeError else Inr (map the ds))"

text \<open>
  One row after the derived columns are added and the columns reordered:
  \<^verbatim>\<open>Days Remaining = (d - today).days\<close> and
  \<^verbatim>\<open>Loan Officer / Branch = Loan Officer + " / " + Branch\<close>.
\<close>

definition derive_row :: "date \<Rightarrow> raw_row \<Rightarrow> date \<Rightarrow> report_row" where
  "derive_row today r d =
     \<lparr> customer_name = r_customer_name r,
       loan_ident = r_loan_id r,
       amount = r_amount_borrowed r,
       outstanding = r_outstanding_balance r,
       due = d,
       days_remaining = d - today,
       phone = r_phone_number r,
       email_address = r_email r,
       officer_branch = r_loan_officer r @ '' / '' @ r_branch r,
       status = r_loan_status r \<rparr>"

text \<open>The columns of the returned frame, \<^verbatim>\<open>df.columns\<close>.\<close>

definition df_columns :: "string list" where
  "df_columns =
     [''Customer Name'', ''Loan ID'', ''Amount Borrowed'', ''Outstanding Balance'',
      ''Due Date'', ''Days Remaining'', ''Phone Number'', ''Email'',
      ''Loan Officer / Branch'', ''Loan Status'']"

text \<open>
  The body of \<^verbatim>\<open>fetch_due_loans\<close> once \<^verbatim>\<open>today = date.today()\<close> is read: the frame, or the
  exception of the cutoff, of the date conversion or of the days remaining.
\<close>

definition fetch_frame :: "conn \<Rightarrow> date \<Rightarrow> int \<Rightarrow> bool \<Rightarrow> error + report_row list" where
  "fetch_frame db today days_ahead include_overdue =
     (case date_add today days_ahead of
        Inl e \<Rightarrow> Inl e
      | Inr cutoff \<Rightarrow>
          (let raw = read_sql_query db include_overdue today cutoff
           in case to_datetime (map r_due_date raw) of
                Inl e \<Rightarrow> Inl e
              | Inr ts \<Rightarrow>
                  (case dates_of ts of
                     Inl e \<Rightarrow> Inl e
                   | Inr ds \<Rightarrow> Inr (map2 (derive_row today) raw ds))))"

subsection \<open>The workbook of \<^verbatim>\<open>generate_excel_report\<close>\<close>

text \<open>
  A Python value in a cell or a tuple. \<open>PFmt x\<close> is the text \<^verbatim>\<open>f"{x:,.2f}"\<close>, kept as the
  number it formats.
\<close>

datatype pyval = PStr string | PInt int | PFloat real | PDate date | PFmt real

record xl_cell =
  c_value :: pyval
  c_fill :: string
  c_bold :: bool
  c_color :: string
  c_horizontal :: string

text \<open>
  A piece of the title: a literal text, or \<open>Upper s\<close>, the text \<^verbatim>\<open>s.upper()\<close> kept as the
  text it capitalises.
\<close>

datatype fragment = Lit string | Upper string

record workbook =
  wb_title :: "fragment list"
  wb_subtitle :: string
  wb_header :: "string list"
  wb_rows :: "xl_cell list list"
  wb_summary :: "(string \<times> pyval) list"

definition CLR_OVERDUE_BG :: string where
  "CLR_OVERDUE_BG = ''FFE0E0''"

definition CLR_ALT_ROW :: string where
  "CLR_ALT_ROW = ''F5F8FF''"

definition EN_DASH :: string where
  "EN_DASH = [CHR 0xE2, CHR 0x80, CHR 0x93]"

definition EM_DASH :: string where
  "EM_DASH = [CHR 0xE2, CHR 0x80, CHR 0x94]"

definition CLIPBOARD :: string where
  "CLIPBOARD = [CHR 0xF0, CHR 0x9F, CHR 0x93, CHR 0x8B]"

definition CROSS_MARK :: string where
  "CROSS_MARK = [CHR 0xE2, CHR 0x9D, CHR 0x8C]"

definition CHECK_MARK :: string where
  "CHECK_MARK = [CHR 0xE2, CHR 0x9C, CHR 0x85]"

text \<open>\<^verbatim>\<open>len(x)\<close> as a Python int.\<close>

definition len :: "'a list \<Rightarrow> int" where
  "len xs = int (length xs)"

definition report_filename :: "date \<Rightarrow> string" where
  "report_filename today =
     ''reports'' @ ''/Loans_Due_Report_'' @ strftime ''%Y%m%d'' today @ ''.xlsx''"

definition title_text :: "string \<Rightarrow> fragment list" where
  "title_text company_name =
     [Lit (CLIPBOARD @ ''  ''), Upper company_name,
      Lit (''  '' @ EN_DASH @ ''  LOAN DUE DATE ALERT'')]"

definition subtitle_text :: "report_row list \<Rightarrow> date \<Rightarrow> string" where
  "subtitle_text df today =
     ''Report Generated: '' @ strftime ''%A, %d %B %Y'' today @ ''  |  ''
     @ ''Loans Due: '' @ strftime ''%d %b'' today @ '' '' @ EN_DASH @ '' ''
     @ strftime ''%d %b %Y'' (today + 7) @ ''  |  ''
     @ ''Total Records: '' @ str_int (len df)"

text \<open>The tuple of \<^verbatim>\<open>df.itertuples(index=False)\<close> for one row.\<close>

definition row_values :: "report_row \<Rightarrow> pyval list" where
  "row_values r =
     [PStr (customer_name r), PStr (loan_ident r), PFloat (amount r), PFloat (outstanding r),
      PDate (due r), PInt (days_remaining r), PStr (phone r), PStr (email_address r),
      PStr (officer_branch r), PStr (status r)]"

text \<open>The background of the data row written at sheet row \<open>row_idx\<close>.\<close>

definition row_fill :: "nat \<Rightarrow> report_row \<Rightarrow> string" where
  "row_fill row_idx r =
     (if status r = ''Overdue'' \<or> days_remaining r < 0 then CLR_OVERDUE_BG
      else if row_idx mod 2 = 0 then CLR_ALT_ROW
      else ''FFFFFF'')"

text \<open>One cell of a data row: the branch is chosen by the name of the column.\<close>

definition data_cell :: "string \<Rightarrow> string \<Rightarrow> pyval \<Rightarrow> xl_cell" where
  "data_cell fill col_name v =
     (if col_name = ''Amount Borrowed'' \<or> col_name = ''Outstanding Balance'' then
        \<lparr> c_value = v, c_fill = fill, c_bold = False, c_color = ''000000'',
          c_horizontal = ''right'' \<rparr>
      else if col_name = ''Due Date'' then
        \<lparr> c_value = (case v of PDate d \<Rightarrow> PStr (isoformat d) | _ \<Rightarrow> v), c_fill = fill,
          c_bold = False, c_color = ''000000'', c_horizontal = ''center'' \<rparr>
      else if col_name = ''Days Remaining'' then
        (case v of
           PInt n \<Rightarrow>
             if n < 0 then
               \<lparr> c_value = v, c_fill = fill, c_bold = True, c_color = ''CC0000'',
                 c_horizontal = ''center'' \<rparr>
             else if n \<le> 3 then
               \<lparr> c_value = v, c_fill = fill, c_bold = True, c_color = ''E65100'',
                 c_horizontal = ''center'' \<rparr>
             else
               \<lparr> c_value = v, c_fill = fill, c_bold = False, c_color = ''000000'',
                 c_horizontal = ''center'' \<rparr>
         | _ \<Rightarrow>
             \<lparr> c_value = v, c_fill = fill, c_bold = False, c_color = ''000000'',
               c_horizontal = ''center'' \<rparr>)
      else if col_name = ''Loan Status'' then
        (if v = PStr ''Overdue'' then
           \<lparr> c_value = v, c_fill = fill, c_bold = True, c_color = ''CC0000'',
             c_horizontal = ''center'' \<rparr>
         else
           \<lparr> c_value = v, c_fill = fill, c_bold = True, c_color = ''1B7A1B'',
             c_horizontal = ''center'' \<rparr>)
      else
        \<lparr> c_value = v, c_fill = fill, c_bold = False, c_color = ''000000'',
          c_horizontal = ''general'' \<rparr>)"

definition data_row :: "nat \<Rightarrow> report_row \<Rightarrow> xl_cell list" where
  "data_row row_idx r = map2 (data_cell (row_fill row_idx r)) df_columns (row_values r)"

text \<open>\<^verbatim>\<open>summary_data\<close> of the second sheet, label and value.\<close>

definition summary_data :: "report_row list \<Rightarrow> date \<Rightarrow> (string \<times> pyval) list" where
  "summary_data df today =
     (let overdue_df = filter (\<lambda>r. status r = ''Overdue'') df;
          active_df = filter (\<lambda>r. status r = ''Active'') df
      in [(''Report Date'', PStr (strftime ''%d %B %Y'' today)),
          (''Reporting Period'', PStr ''Next 7 Days + Overdue''),
          ([], PStr []),
          (''LOAN COUNTS'', PStr []),
          (''Total Loans in Report'', PInt (len df)),
          (''Active Loans'', PInt (len active_df)),
          (''Overdue Loans'', PInt (len overdue_df)),
          ([], PStr []),
          (''FINANCIAL SUMMARY'', PStr []),
          (''Total Amount Borrowed (KES)'', PFmt (sum_list (map amount df))),
          (''Total Outstanding (KES)'', PFmt (sum_list (map outstanding df))),
          (''Overdue Outstanding (KES)'', PFmt (sum_list (map outstanding overdue_df))),
          ([], PStr []),
          (''DUE THIS WEEK'', PStr []),
          (''Due Today'', PInt (len (filter (\<lambda>r. days_remaining r = 0) df))),
          (''Due in 1-3 Days'',
             PInt (len (filter (\<lambda>r. days_remaining r \<ge> 1 \<and> days_remaining r \<le> 3) df))),
          (''Due in 4-7 Days'',
             PInt (len (filter (\<lambda>r. days_remaining r \<ge> 4 \<and> days_remaining r \<le> 7) df))),
          (''Already Overdue'', PInt (len (filter (\<lambda>r. days_remaining r < 0) df)))])"

text \<open>The workbook that \<^verbatim>\<open>generate_excel_report\<close> saves, once \<^verbatim>\<open>today\<close> is read.\<close>

definition build_workbook :: "report_row list \<Rightarrow> string \<Rightarrow> date \<Rightarrow> workbook" where
  "build_workbook df company_name today =
     \<lparr> wb_title = title_text company_name,
       wb_subtitle = subtitle_text df today,
       wb_header = df_columns,
       wb_rows = map2 data_row [5 ..< 5 + length df] df,
       wb_summary = summary_data df today \<rparr>"

subsection \<open>The HTML body of \<^verbatim>\<open>build_email_body\<close>\<close>

text \<open>
  The body is kept as its parts: the interpolated values of the summary table, the header
  cells of the detail table and its rows. \<open>Kes x\<close> is the text \<^verbatim>\<open>KES {x:,.2f}\<close>,
  \<open>Span c t\<close> the bold \<^verbatim>\<open>span\<close> of colour \<open>c\<close> around the text \<open>t\<close>.
\<close>

datatype html = Plain string | Kes real | Span string string

record email_row =
  tr_background :: string
  tr_cells :: "html list"
  tr_status_color :: string

record email_body =
  eb_company :: string
  eb_generated :: string
  eb_total :: int
  eb_active :: int
  eb_overdue :: int
  eb_total_outstanding :: real
  eb_overdue_outstanding :: real
  eb_header :: "string list"
  eb_rows :: "email_row list"

definition days_display :: "int \<Rightarrow> html" where
  "days_display n =
     (if n < 0 then Span ''red'' (str_int n @ '' (Overdue)'')
      else Span (if n \<le> 3 then ''#e65100'' else ''#1b7a1b'') (str_int n))"

text \<open>One \<^verbatim>\<open>tr\<close> of the detail table; \<open>i\<close> is the index label of the row.\<close>

definition email_tr :: "nat \<Rightarrow> report_row \<Rightarrow> email_row" where
  "email_tr i r =
     \<lparr> tr_background =
         (if status r = ''Overdue'' then ''#ffe0e0''
          else if i mod 2 = 0 then ''#ffffff'' else ''#f5f8ff''),
       tr_cells =
         [Plain (customer_name r), Plain (loan_ident r), Kes (amount r), Kes (outstanding r),
          Plain (isoformat (due r)), days_display (days_remaining r), Plain (phone r),
          Plain (officer_branch r), Plain (status r)],
       tr_status_color = (if status r = ''Overdue'' then ''red'' else ''green'') \<rparr>"

text \<open>The \<^verbatim>\<open>th\<close> cells of the detail table.\<close>

definition email_header :: "string list" where
  "email_header =
     [''Customer Name'', ''Loan ID'', ''Amount Borrowed'', ''Outstanding Balance'',
      ''Due Date'', ''Days Remaining'', ''Phone'', ''Loan Officer / Branch'', ''Status'']"

text \<open>The body that \<^verbatim>\<open>build_email_body\<close> returns, once \<^verbatim>\<open>today\<close> is read.\<close>

definition email_body_of :: "report_row list \<Rightarrow> string \<Rightarrow> date \<Rightarrow> email_body" where
  "email_body_of df company_name today =
     \<lparr> eb_company = company_name,
       eb_generated = strftime ''%A, %d %B %Y'' today,
       eb_total = len df,
       eb_active = len (filter (\<lambda>r. status r = ''Active'') df),
       eb_overdue = len (filter (\<lambda>r. status r = ''Overdue'') df),
       eb_total_outstanding = sum_list (map outstanding df),
       eb_overdue_outstanding =
         sum_list (map outstanding (filter (\<lambda>r. status r = ''Overdue'') df)),
       eb_header = email_header,
       eb_rows = map2 email_tr [0 ..< length df] df \<rparr>"

subsection \<open>The world: clock, files, mail transport, log\<close>

record message =
  m_subject :: string
  m_from :: string
  m_to :: string
  m_html :: email_body
  m_attachment_name :: string
  m_attachment :: workbook

datatype level = INFO | ERROR

text \<open>
  \<open>clock w k\<close> is the date that the \<open>k\<close>-th call of \<^verbatim>\<open>date.today()\<close> returns,
  \<open>files\<close> the workbooks on disk by path, \<open>smtp_fault\<close> the failure the mail transport raises
  (none when it delivers), \<open>sent\<close> the messages delivered and \<open>log\<close> the lines logged.
\<close>

record world =
  clock :: "nat \<Rightarrow> date"
  clock_reads :: nat
  files :: "string \<rightharpoonup> workbook"
  smtp_fault :: "string option"
  sent :: "message list"
  log :: "(level \<times> string) list"

definition date_today :: "world \<Rightarrow> date \<times> world" where
  "date_today w = (clock w (clock_reads w), w\<lparr>clock_reads := Suc (clock_reads w)\<rparr>)"

definition log_info :: "string \<Rightarrow> world \<Rightarrow> world" where
  "log_info s w = w\<lparr>log := log w @ [(INFO, s)]\<rparr>"

definition log_error :: "string \<Rightarrow> world \<Rightarrow> world" where
  "log_error s w = w\<lparr>log := log w @ [(ERROR, s)]\<rparr>"

text \<open>
  \<^verbatim>\<open>str(e)\<close> of an exception; \<open>repr s\<close> is the text \<open>s\<close> in single quotes. \<^verbatim>\<open>main\<close>
  logs the text of the exceptions of \<^verbatim>\<open>send_email\<close> only: a missing option of the section
  \<^verbatim>\<open>EMAIL\<close>, a missing report file, and the exception of the mail transport, which
  carries its text.
\<close>

definition repr :: "string \<Rightarrow> string" where
  "repr s = [CHR 0x27] @ s @ [CHR 0x27]"

fun str_error :: "error \<Rightarrow> string" where
  "str_error (ParserError s) = ''Unknown datetime string format, unable to parse: '' @ s"
| "str_error OverflowError = ''date value out of range''"
| "str_error TypeError
     = ''unsupported operand type(s) for -: '' @ repr ''NaTType'' @ '' and '' @ repr ''datetime.date''"
| "str_error (NoOptionError s) = ''No option '' @ repr s @ '' in section: '' @ repr ''EMAIL''"
| "str_error (FileNotFoundError s) = ''[Errno 2] No such file or directory: '' @ repr s"
| "str_error (SMTPException s) = s"

text \<open>
  The options of \<^verbatim>\<open>config.ini\<close> that the run reads; \<open>None\<close> is an option that the file does
  not set.
\<close>

record config =
  days_lookahead :: "int option"
  include_overdue :: "bool option"
  save_local_copy :: "bool option"
  company_name :: "string option"
  sender_email :: "string option"
  sender_password :: "string option"
  recipient_email :: "string option"
  recipient_name :: "string option"
  smtp_server :: "string option"
  smtp_port :: "int option"
  email_subject :: "string option"

text \<open>\<^verbatim>\<open>cfg.get(section, option, fallback=v)\<close>\<close>

definition fallback :: "'a \<Rightarrow> 'a option \<Rightarrow> 'a" where
  "fallback v opt = (case opt of None \<Rightarrow> v | Some x \<Rightarrow> x)"

subsection \<open>\<^verbatim>\<open>fetch_due_loans\<close>, \<^verbatim>\<open>generate_excel_report\<close>, \<^verbatim>\<open>build_email_body\<close>\<close>

definition fetch_due_loans ::
  "conn \<Rightarrow> int \<Rightarrow> bool \<Rightarrow> world \<Rightarrow> (error + report_row list) \<times> world" where
  "fetch_due_loans db days_ahead inc w =
     (case date_today w of (today, w1) \<Rightarrow>
        (case fetch_frame db today days_ahead inc of
           Inl e \<Rightarrow> (Inl e, w1)
         | Inr df \<Rightarrow>
             (Inr df,
              log_info (''Fetched '' @ str_int (len df) @ '' loans due within ''
                        @ str_int days_ahead @ '' days.'') w1)))"

definition generate_excel_report :: "report_row list \<Rightarrow> string \<Rightarrow> world \<Rightarrow> string \<times> world" where
  "generate_excel_report df company w =
     (case date_today w of (today, w1) \<Rightarrow>
        (let filename = report_filename today;
             wb = build_workbook df company today;
             w2 = w1\<lparr>files := (files w1)(filename \<mapsto> wb)\<rparr>
         in (filename, log_info (''Excel report saved: '' @ filename) w2)))"

definition build_email_body :: "report_row list \<Rightarrow> string \<Rightarrow> world \<Rightarrow> email_body \<times> world" where
  "build_email_body df company w =
     (case date_today w of (today, w1) \<Rightarrow> (email_body_of df company today, w1))"

subsection \<open>\<^verbatim>\<open>send_email\<close>\<close>

text \<open>\<^verbatim>\<open>os.path.basename\<close>: the part after the last slash.\<close>

definition basename :: "string \<Rightarrow> string" where
  "basename p = rev (takeWhile (\<lambda>c. c \<noteq> CHR ''/'') (rev p))"

text \<open>
  The three options without a fallback raise when the file does not set them. The subject
  reads the clock, then the body does; the attachment is read from the path; the transport
  delivers or raises.
\<close>

definition send_email ::
  "config \<Rightarrow> string \<Rightarrow> report_row list \<Rightarrow> world \<Rightarrow> (error + unit) \<times> world" where
  "send_email cfg report_path df w =
     (case sender_email cfg of
        None \<Rightarrow> (Inl (NoOptionError ''sender_email''), w)
      | Some sender \<Rightarrow>
     (case sender_password cfg of
        None \<Rightarrow> (Inl (NoOptionError ''sender_password''), w)
      | Some password \<Rightarrow>
     (case recipient_email cfg of
        None \<Rightarrow> (Inl (NoOptionError ''recipient_email''), w)
      | Some recipient \<Rightarrow>
     (let rname = fallback ''Credit and Loans Department'' (recipient_name cfg);
          server = fallback ''smtp.gmail.com'' (smtp_server cfg);
          port = fallback 587 (smtp_port cfg);
          subject = fallback ''Loan Due Date Alert'' (email_subject cfg);
          company = fallback ''Loan Management System'' (company_name cfg)
      in case date_today w of (d, w1) \<Rightarrow>
         (case build_email_body df company w1 of (body, w2) \<Rightarrow>
            (case files w2 report_path of
               None \<Rightarrow> (Inl (FileNotFoundError report_path), w2)
             | Some wb \<Rightarrow>
                 (let msg = \<lparr> m_subject = subject @ '' '' @ EN_DASH @ '' '' @ strftime ''%d %b %Y'' d,
                              m_from = company @ '' <'' @ sender @ ''>'',
                              m_to = rname @ '' <'' @ recipient @ ''>'',
                              m_html = body,
                              m_attachment_name = basename report_path,
                              m_attachment = wb \<rparr>;
                      w3 = log_info (''Connecting to '' @ server @ '':'' @ str_int port @ ''...'') w2
                  in case smtp_fault w3 of
                       Some f \<Rightarrow> (Inl (SMTPException f), w3)
                     | None \<Rightarrow>
                         (Inr (),
                          log_info (CHECK_MARK @ ''  Email sent successfully to '' @ recipient)
                            (w3\<lparr>sent := sent w3 @ [msg]\<rparr>)))))))))"

subsection \<open>\<^verbatim>\<open>main\<close>\<close>

definition banner :: "string \<Rightarrow> world \<Rightarrow> world" where
  "banner s w =
     log_info (replicate 55 CHR ''='') (log_info s (log_info (replicate 55 CHR ''='') w))"

text \<open>
  The run, from the loaded configuration and the open connection. \<open>Inl e\<close> is the exception
  with which the run ends, \<open>Inr ()\<close> a normal return.
\<close>

definition main :: "config \<Rightarrow> conn \<Rightarrow> world \<Rightarrow> (error + unit) \<times> world" where
  "main cfg db w =
     (let w0 = banner (''  LOAN MONITORING SYSTEM '' @ EM_DASH @ '' Starting Run'') w;
          days_ahead = fallback 7 (days_lookahead cfg);
          inc = fallback True (include_overdue cfg);
          keep = fallback True (save_local_copy cfg);
          company = fallback ''Loan Management System'' (company_name cfg)
      in case fetch_due_loans db days_ahead inc w0 of
           (Inl e, w1) \<Rightarrow> (Inl e, w1)
         | (Inr df, w1) \<Rightarrow>
             if df = [] then
               (Inr (), log_info ''No loans due within the reporting window. No email sent.'' w1)
             else
               (case generate_excel_report df company w1 of (report_path, w2) \<Rightarrow>
                  (case send_email cfg report_path df w2 of
                     (Inl e, w3) \<Rightarrow>
                       (Inl e,
                        log_info (''Report saved locally at: '' @ report_path)
                          (log_error (CROSS_MARK @ ''  Failed to send email: '' @ str_error e) w3))
                   | (Inr u, w3) \<Rightarrow>
                       (let w4 =
                          (if \<not> keep \<and> files w3 report_path \<noteq> None then
                             log_info ''Local report copy removed (save_local_copy=false).''
                               (w3\<lparr>files := (files w3)(report_path := None)\<rparr>)
                           else w3)
                        in (Inr (), banner ''  Run complete.'' w4)))))"

subsection \<open>Notions for the statements\<close>

text \<open>A value of the due-date column that is the ISO text of a \<^verbatim>\<open>datetime.date\<close>.\<close>

definition is_date :: "sql_date \<Rightarrow> bool" where
  "is_date c = (case c of DateCell d \<Rightarrow> valid_date d | _ \<Rightarrow> False)"

text \<open>The due date of a row of the join.\<close>

definition due_key :: "loan \<times> customer \<times> branch \<Rightarrow> date" where
  "due_key j = cell_day (due_date (fst j))"

text \<open>The number that a text of decimal digits writes.\<close>

definition digits_value :: "string \<Rightarrow> nat" where
  "digits_value s = foldl (\<lambda>v c. 10 * v + (of_char c - 48)) 0 s"

subsection \<open>Example data\<close>

text \<open>
  Concrete inputs on which the theorems below are evaluated. Ordinal 738900 is Monday
  2024-01-15 and ordinal 739248 is Saturday 2024-12-28.
\<close>

definition ex_loan :: "string \<Rightarrow> sql_date \<Rightarrow> string \<Rightarrow> loan" where
  "ex_loan ident d st =
     \<lparr> loan_id = ident, l_customer_id = 1, l_branch_id = 1, amount_borrowed = 1000,
       outstanding_balance = 400, due_date = d, loan_status = st \<rparr>"

definition ex_db :: "loan list \<Rightarrow> conn" where
  "ex_db ls =
     \<lparr> loans = ls,
       customers = [\<lparr> customer_id = 1, full_name = ''Ann Wanjiru'',
                      phone_number = ''0700000001'', email = ''ann@example.org'' \<rparr>],
       branches = [\<lparr> branch_id = 1, loan_officer = ''Omar'', branch_name = ''Thika'' \<rparr>] \<rparr>"

definition ex_loans :: "loan list" where
  "ex_loans =
     [ex_loan ''L1'' (DateCell 738902) ''Active'',
      ex_loan ''L2'' (DateCell 738890) ''Overdue'',
      ex_loan ''L3'' (DateCell 738901) ''Paid'',
      ex_loan ''L4'' (DateCell 738950) ''Active'',
      ex_loan ''L5'' (DateCell 738900) ''Active'']"

definition ex_loans_bad :: "loan list" where
  "ex_loans_bad =
     [ex_loan ''L1'' (DateCell 739250) ''Active'',
      ex_loan ''L6'' (TextCell ''2024-13-45'') ''Active'']"

definition ex_row :: "string \<Rightarrow> int \<Rightarrow> string \<Rightarrow> report_row" where
  "ex_row ident n st =
     \<lparr> customer_name = ''Ann Wanjiru'', loan_ident = ident, amount = 1000, outstanding = 400,
       due = 738900 + n, days_remaining = n, phone = ''0700000001'',
       email_address = ''ann@example.org'', officer_branch = ''Omar / Thika'', status = st \<rparr>"

definition ex_frame :: "report_row list" where
  "ex_frame =
     [ex_row ''L2'' (- 2) ''Active'', ex_row ''L5'' 0 ''Active'', ex_row ''L1'' 2 ''Active'',
      ex_row ''L7'' 5 ''Overdue'', ex_row ''L8'' 10 ''Active'']"

definition ex_cfg :: "bool \<Rightarrow> config" where
  "ex_cfg keep =
     \<lparr> days_lookahead = Some 7, include_overdue = Some True, save_local_copy = Some keep,
       company_name = Some ''Maisha Bora Sacco'', sender_email = Some ''info@example.org'',
       sender_password = Some ''secret'', recipient_email = Some ''credit@example.org'',
       recipient_name = None, smtp_server = None, smtp_port = None, email_subject = None \<rparr>"

definition ex_world :: "(nat \<Rightarrow> date) \<Rightarrow> string option \<Rightarrow> world" where
  "ex_world clk fault =
     \<lparr> clock = clk, clock_reads = 0, files = Map.empty, smtp_fault = fault, sent = [],
       log = [] \<rparr>"

section \<open>Properties\<close>

subsection \<open>The calendar\<close>

text \<open>
  The fields of an ordinal give the ordinal back, they grow with it in their lexicographic
  order, and so do the ISO text and the date stamp, for the dates of years 1 to 9999.
\<close>

text \<open>
  A year minus one is \<open>400 * a + 100 * b + 4 * c + d\<close> in the 400-year cycle; the days
  before the year and its leap rule are read off these parts.
\<close>

lemma year_parts:
  fixes a b c d :: int
  assumes "0 \<le> b" "b \<le> 3" "0 \<le> c" "c \<le> 24" "0 \<le> d" "d \<le> 3"
  shows "(400 * a + 100 * b + 4 * c + d) div 4 = 100 * a + 25 * b + c"
    and "(400 * a + 100 * b + 4 * c + d) div 100 = 4 * a + b"
    and "(400 * a + 100 * b + 4 * c + d) div 400 = a"
    and "(400 * a + 100 * b + 4 * c + d) mod 4 = d"
    and "(400 * a + 100 * b + 4 * c + d) mod 100 = 4 * c + d"
    and "(400 * a + 100 * b + 4 * c + d) mod 400 = 100 * b + 4 * c + d"
proof -
  show "(400 * a + 100 * b + 4 * c + d) div 4 = 100 * a + 25 * b + c"
    by (rule int_div_pos_eq [where r = d]) (use assms in auto)
  show "(400 * a + 100 * b + 4 * c + d) div 100 = 4 * a + b"
    by (rule int_div_pos_eq [where r = "4 * c + d"]) (use assms in auto)
  show "(400 * a + 100 * b + 4 * c + d) div 400 = a"
    by (rule int_div_pos_eq [where r = "100 * b + 4 * c + d"]) (use assms in auto)
  show "(400 * a + 100 * b + 4 * c + d) mod 4 = d"
    by (rule int_mod_pos_eq [where q = "100 * a + 25 * b + c"]) (use assms in auto)
  show "(400 * a + 100 * b + 4 * c + d) mod 100 = 4 * c + d"
    by (rule int_mod_pos_eq [where q = "4 * a + b"]) (use assms in auto)
  show "(400 * a + 100 * b + 4 * c + d) mod 400 = 100 * b + 4 * c + d"
    by (rule int_mod_pos_eq [where q = a]) (use assms in auto)
qed

lemma days_before_year_parts:
  fixes a b c d :: int
  assumes "0 \<le> b" "b \<le> 3" "0 \<le> c" "c \<le> 24" "0 \<le> d" "d \<le> 3"
  shows "days_before_year (400 * a + 100 * b + 4 * c + d + 1)
           = 146097 * a + 36524 * b + 1461 * c + 365 * d"
  using year_parts(1-3) [OF assms, of a] by (simp add: days_before_year_def Let_def)

lemma is_leap_parts:
  fixes a b c d :: int
  assumes "0 \<le> b" "b \<le> 3" "0 \<le> c" "c \<le> 24" "0 \<le> d" "d \<le> 3"
  shows "is_leap (400 * a + 100 * b + 4 * c + d + 1) \<longleftrightarrow> d = 3 \<and> (c \<noteq> 24 \<or> b = 3)"
proof -
  consider (small) "d \<le> 2" | (mid) "d = 3" "c \<le> 23" | (cent) "d = 3" "c = 24" "b \<le> 2"
    | (quad) "d = 3" "c = 24" "b = 3"
    using assms by linarith
  then show ?thesis
  proof cases
    case small
    have "(400 * a + 100 * b + 4 * c + (d + 1)) mod 4 = d + 1"
      using year_parts(4) [of b c "d + 1" a] assms small by simp
    then show ?thesis using small assms by (simp add: is_leap_def add.assoc)
  next
    case mid
    have e: "400 * a + 100 * b + 4 * c + d + 1 = 400 * a + 100 * b + 4 * (c + 1) + 0"
      using mid by simp
    have m4: "(400 * a + 100 * b + 4 * (c + 1) + 0) mod 4 = 0"
      using year_parts(4) [of b "c + 1" 0 a] assms mid by simp
    have m100: "(400 * a + 100 * b + 4 * (c + 1) + 0) mod 100 = 4 * (c + 1) + 0"
      using year_parts(5) [of b "c + 1" 0 a] assms mid by simp
    have "4 * (c + 1) + 0 \<noteq> 0" using assms by simp
    then show ?thesis using mid assms m4 m100 unfolding is_leap_def e by simp
  next
    case cent
    have e: "400 * a + 100 * b + 4 * c + d + 1 = 400 * a + 100 * (b + 1) + 4 * 0 + 0"
      using cent by simp
    have m4: "(400 * a + 100 * (b + 1) + 4 * 0 + 0) mod 4 = 0"
      using year_parts(4) [of "b + 1" 0 0 a] assms cent by simp
    have m100: "(400 * a + 100 * (b + 1) + 4 * 0 + 0) mod 100 = 4 * 0 + 0"
      using year_parts(5) [of "b + 1" 0 0 a] assms cent by simp
    have m400: "(400 * a + 100 * (b + 1) + 4 * 0 + 0) mod 400 = 100 * (b + 1) + 4 * 0 + 0"
      using year_parts(6) [of "b + 1" 0 0 a] assms cent by simp
    have "100 * (b + 1) + 4 * 0 + 0 \<noteq> 0" using assms by simp
    then show ?thesis using cent assms m4 m100 m400 unfolding is_leap_def e by simp
  next
    case quad
    have e: "400 * a + 100 * b + 4 * c + d + 1 = 400 * (a + 1)"
      using quad by simp
    show ?thesis using quad unfolding is_leap_def e by simp
  qed
qed

text \<open>The parts into which ord2ymd divides n - 1.\<close>

lemma ord2ymd_parts:
  fixes n :: int
  defines "a \<equiv> (n - 1) div 146097" and "r400 \<equiv> (n - 1) mod 146097"
  defines "b \<equiv> r400 div 36524" and "r100 \<equiv> r400 mod 36524"
  defines "c \<equiv> r100 div 1461" and "r4 \<equiv> r100 mod 1461"
  defines "d \<equiv> r4 div 365" and "r1 \<equiv> r4 mod 365"
  shows "n - 1 = 146097 * a + 36524 * b + 1461 * c + 365 * d + r1"
    and "0 \<le> b" "b \<le> 4" "0 \<le> c" "c \<le> 24" "0 \<le> d" "d \<le> 4" "0 \<le> r1" "r1 < 365"
    and "b = 4 \<Longrightarrow> c = 0 \<and> d = 0 \<and> r1 = 0"
    and "d = 4 \<Longrightarrow> r1 = 0 \<and> c \<le> 23"
proof -
  have r400: "0 \<le> r400" "r400 < 146097" "n - 1 = 146097 * a + r400"
    by (simp_all add: r400_def a_def)
  have r100: "0 \<le> r100" "r100 < 36524" "r400 = 36524 * b + r100"
    by (simp_all add: r100_def b_def)
  have r4: "0 \<le> r4" "r4 < 1461" "r100 = 1461 * c + r4"
    by (simp_all add: r4_def c_def)
  have r1: "0 \<le> r1" "r1 < 365" "r4 = 365 * d + r1"
    by (simp_all add: r1_def d_def)
  show "n - 1 = 146097 * a + 36524 * b + 1461 * c + 365 * d + r1"
    using r400(3) r100(3) r4(3) r1(3) by simp
  show "0 \<le> r1" "r1 < 365" by (rule r1)+
  have b0: "0 \<le> b" unfolding b_def using r400(1) by (simp add: pos_imp_zdiv_nonneg_iff)
  have c0: "0 \<le> c" unfolding c_def using r100(1) by (simp add: pos_imp_zdiv_nonneg_iff)
  have d0: "0 \<le> d" unfolding d_def using r4(1) by (simp add: pos_imp_zdiv_nonneg_iff)
  show "0 \<le> b" "0 \<le> c" "0 \<le> d" by (rule b0 c0 d0)+
  show b4: "b \<le> 4" using r400 r100 by linarith
  show c24: "c \<le> 24" using r100 r4 by linarith
  show d4: "d \<le> 4" using r4 r1 by linarith
  show "c = 0 \<and> d = 0 \<and> r1 = 0" if "b = 4"
    using that r400 r100 r4 r1 c0 d0 by linarith
  show "r1 = 0 \<and> c \<le> 23" if "d = 4"
    using that r100 r4 r1 c0 by linarith
qed

text \<open>
  The month and the day that \<open>ord2ymd\<close> finds for the day \<open>r1\<close> of a year: the estimate
  \<open>(r1 + 50) div 32\<close> of the month and its correction by one.
\<close>

lemma month_day:
  fixes r1 :: int and leap :: bool
  assumes "0 \<le> r1" "r1 < 365"
  defines "m \<equiv> (r1 + 50) div 32"
  defines "p \<equiv> DAYS_BEFORE_MONTH m + (if m > 2 \<and> leap then 1 else 0)"
  defines "m' \<equiv> if p > r1 then m - 1 else m"
  defines "p' \<equiv> if p > r1
                 then p - (DAYS_IN_MONTH (m - 1) + (if m - 1 = 2 \<and> leap then 1 else 0)) else p"
  shows "1 \<le> m' \<and> m' \<le> 12 \<and> 1 \<le> r1 - p' + 1
         \<and> r1 - p' + 1 \<le> DAYS_IN_MONTH m' + (if m' = 2 \<and> leap then 1 else 0)
         \<and> DAYS_BEFORE_MONTH m' + (if m' > 2 \<and> leap then 1 else 0) = p'"
proof -
  have e: "r1 + 50 = 32 * m + (r1 + 50) mod 32" by (simp add: m_def)
  have r: "0 \<le> (r1 + 50) mod 32" "(r1 + 50) mod 32 < 32" by simp_all
  have lo: "32 * m \<le> r1 + 50" and hi: "r1 + 50 < 32 * m + 32"
    using e r by linarith+
  have mb: "1 \<le> m" "m \<le> 12"
    using lo hi assms(1,2) by linarith+
  consider "m = 1" | "m = 2" | "m = 3" | "m = 4" | "m = 5" | "m = 6" | "m = 7" | "m = 8"
    | "m = 9" | "m = 10" | "m = 11" | "m = 12"
  proof -
    have "m = 1 \<or> m = 2 \<or> m = 3 \<or> m = 4 \<or> m = 5 \<or> m = 6 \<or> m = 7 \<or> m = 8
          \<or> m = 9 \<or> m = 10 \<or> m = 11 \<or> m = 12"
      using mb by presburger
    then show ?thesis using that by blast
  qed
  then show ?thesis
    by cases
      (use lo hi assms(1,2) in
        \<open>auto simp add: m'_def p'_def p_def DAYS_BEFORE_MONTH_def DAYS_IN_MONTH_def\<close>)
qed

text \<open>
  The round trip: the year, month and day of an ordinal give the ordinal back, and they are
  a day of the calendar.
\<close>

lemma ord2ymd_fields:
  "ymd2ord (year_of n) (month_of n) (day_of n) = n
   \<and> 1 \<le> month_of n \<and> month_of n \<le> 12 \<and> 1 \<le> day_of n
   \<and> day_of n \<le> days_in_month (year_of n) (month_of n)
   \<and> 400 * ((n - 1) div 146097) < year_of n"
proof -
  define a where "a = (n - 1) div 146097"
  define r400 where "r400 = (n - 1) mod 146097"
  define b where "b = r400 div 36524"
  define r100 where "r100 = r400 mod 36524"
  define c where "c = r100 div 1461"
  define r4 where "r4 = r100 mod 1461"
  define d where "d = r4 div 365"
  define r1 where "r1 = r4 mod 365"
  note defs = a_def r400_def b_def r100_def c_def r4_def d_def r1_def
  have n: "n - 1 = 146097 * a + 36524 * b + 1461 * c + 365 * d + r1"
    unfolding defs by (rule ord2ymd_parts(1))
  have bnd: "0 \<le> b" "b \<le> 4" "0 \<le> c" "c \<le> 24" "0 \<le> d" "d \<le> 4" "0 \<le> r1" "r1 < 365"
    unfolding defs by (rule ord2ymd_parts(2-9))+
  have b4: "b = 4 \<Longrightarrow> c = 0 \<and> d = 0 \<and> r1 = 0"
    unfolding defs by (rule ord2ymd_parts(10))
  have d4: "d = 4 \<Longrightarrow> r1 = 0 \<and> c \<le> 23"
    unfolding defs by (rule ord2ymd_parts(11))
  define leap where "leap \<longleftrightarrow> d = 3 \<and> (c \<noteq> 24 \<or> b = 3)"
  define m where "m = (r1 + 50) div 32"
  define p where "p = DAYS_BEFORE_MONTH m + (if m > 2 \<and> leap then 1 else 0)"
  define m' where "m' = (if p > r1 then m - 1 else m)"
  define p' where "p' = (if p > r1
                 then p - (DAYS_IN_MONTH (m - 1) + (if m - 1 = 2 \<and> leap then 1 else 0)) else p)"
  have o0: "ord2ymd n =
             (if d = 4 \<or> b = 4 then (a * 400 + 1 + b * 100 + c * 4 + d - 1, 12, 31)
              else if p > r1
                then (a * 400 + 1 + b * 100 + c * 4 + d, m - 1,
                      r1 - (p - (DAYS_IN_MONTH (m - 1) + (if m - 1 = 2 \<and> leap then 1 else 0))) + 1)
                else (a * 400 + 1 + b * 100 + c * 4 + d, m, r1 - p + 1))"
    unfolding ord2ymd_def Let_def defs leap_def m_def p_def by (rule refl)
  have o: "ord2ymd n =
             (if d = 4 \<or> b = 4 then (400 * a + 100 * b + 4 * c + d, 12, 31)
              else (400 * a + 100 * b + 4 * c + d + 1, m', r1 - p' + 1))"
    unfolding o0 m'_def p'_def by simp
  show ?thesis
  proof (cases "d = 4 \<or> b = 4")
    case True
    have f: "year_of n = 400 * a + 100 * b + 4 * c + d" "month_of n = 12" "day_of n = 31"
      using True by (simp_all add: year_of_def month_of_def day_of_def o)
    have "ymd2ord (400 * a + 100 * b + 4 * c + d) 12 31 = n"
    proof (cases "b = 4")
      case True
      then have z: "c = 0" "d = 0" "r1 = 0" using b4 by simp_all
      have e: "400 * a + 100 * b + 4 * c + d = 400 * a + 100 * 3 + 4 * 24 + 3 + 1"
        using True z by simp
      have y: "days_before_year (400 * a + 100 * 3 + 4 * 24 + 3 + 1)
                 = 146097 * a + 36524 * 3 + 1461 * 24 + 365 * 3"
        by (rule days_before_year_parts) simp_all
      have l: "is_leap (400 * a + 100 * 3 + 4 * 24 + 3 + 1)"
        using is_leap_parts [of 3 24 3 a] by simp
      show ?thesis
        unfolding e using y l n True z
        by (simp add: ymd2ord_def days_before_month_def DAYS_BEFORE_MONTH_def)
    next
      case False
      then have d: "d = 4" using \<open>d = 4 \<or> b = 4\<close> by simp
      then have z: "r1 = 0" "c \<le> 23" using d4 by simp_all
      have b3: "b \<le> 3" using False bnd by simp
      have e: "400 * a + 100 * b + 4 * c + d = 400 * a + 100 * b + 4 * c + 3 + 1"
        using d by simp
      have y: "days_before_year (400 * a + 100 * b + 4 * c + 3 + 1)
                 = 146097 * a + 36524 * b + 1461 * c + 365 * 3"
        by (rule days_before_year_parts) (use bnd b3 in simp_all)
      have l: "is_leap (400 * a + 100 * b + 4 * c + 3 + 1)"
        using is_leap_parts [of b c 3 a] bnd b3 z by simp
      show ?thesis
        unfolding e using y l n d z
        by (simp add: ymd2ord_def days_before_month_def DAYS_BEFORE_MONTH_def)
    qed
    then show ?thesis using f True bnd unfolding a_def [symmetric]
      by (auto simp: days_in_month_def DAYS_IN_MONTH_def)
  next
    case False
    then have b3: "b \<le> 3" and d3: "d \<le> 3" using bnd by simp_all
    have f: "year_of n = 400 * a + 100 * b + 4 * c + d + 1" "month_of n = m'"
      "day_of n = r1 - p' + 1"
      using False by (simp_all add: year_of_def month_of_def day_of_def o)
    have y: "days_before_year (400 * a + 100 * b + 4 * c + d + 1)
               = 146097 * a + 36524 * b + 1461 * c + 365 * d"
      by (rule days_before_year_parts) (use bnd b3 d3 in simp_all)
    have l: "is_leap (400 * a + 100 * b + 4 * c + d + 1) \<longleftrightarrow> leap"
      unfolding leap_def by (rule is_leap_parts) (use bnd b3 d3 in simp_all)
    have md: "1 \<le> m' \<and> m' \<le> 12 \<and> 1 \<le> r1 - p' + 1
              \<and> r1 - p' + 1 \<le> DAYS_IN_MONTH m' + (if m' = 2 \<and> leap then 1 else 0)
              \<and> DAYS_BEFORE_MONTH m' + (if m' > 2 \<and> leap then 1 else 0) = p'"
      unfolding m'_def p'_def p_def m_def by (rule month_day) (use bnd in simp_all)
    have "ymd2ord (400 * a + 100 * b + 4 * c + d + 1) m' (r1 - p' + 1) = n"
      using y l md n by (simp add: ymd2ord_def days_before_month_def)
    moreover have "r1 - p' + 1 \<le> days_in_month (400 * a + 100 * b + 4 * c + d + 1) m'"
      using md l by (auto simp: days_in_month_def DAYS_IN_MONTH_def split: if_splits)
    ultimately show ?thesis using f md bnd unfolding a_def [symmetric] by simp
  qed
qed

lemma year_of_pos: "1 \<le> n \<Longrightarrow> 1 \<le> year_of n"
proof -
  assume "1 \<le> n"
  then have "0 \<le> (n - 1) div 146097" by simp
  moreover have "400 * ((n - 1) div 146097) < year_of n" using ord2ymd_fields [of n] by simp
  ultimately show ?thesis by linarith
qed

text \<open>A zero-padded decimal text writes its number: the padding is injective.\<close>

lemma digit_char_value: "of_char (digit_char k) - (48::nat) = k mod 10"
proof -
  have "k mod 10 = 0 \<or> k mod 10 = 1 \<or> k mod 10 = 2 \<or> k mod 10 = 3 \<or> k mod 10 = 4
      \<or> k mod 10 = 5 \<or> k mod 10 = 6 \<or> k mod 10 = 7 \<or> k mod 10 = 8 \<or> k mod 10 = 9"
    by presburger
  then show ?thesis by (elim disjE) (simp_all add: digit_char_def)
qed

lemma digits_value_snoc:
  "digits_value (s @ [c]) = 10 * digits_value s + (of_char c - 48)"
  by (simp add: digits_value_def)

lemma digits_value_str_nat: "digits_value (str_nat n) = n"
proof (induction n rule: str_nat.induct)
  case (1 n)
  show ?case
  proof (cases "n < 10")
    case True
    then show ?thesis
      by (subst str_nat.simps) (simp add: digits_value_def digit_char_value del: str_nat.simps)
  next
    case False
    then have "digits_value (str_nat (n div 10)) = n div 10" using 1 by (simp del: str_nat.simps)
    then show ?thesis using False
      by (subst str_nat.simps) (simp add: digits_value_snoc digit_char_value del: str_nat.simps)
  qed
qed

lemma digits_value_zeros: "digits_value (replicate k CHR ''0'' @ s) = digits_value s"
proof -
  have "foldl (\<lambda>v c. 10 * v + (of_char c - 48)) (0::nat) (replicate k CHR ''0'') = 0"
    by (induction k) simp_all
  then show ?thesis by (simp add: digits_value_def)
qed

lemma digits_value_zpad: "0 \<le> i \<Longrightarrow> digits_value (zpad w i) = nat i"
  by (simp add: zpad_def Let_def str_int_def digits_value_zeros digits_value_str_nat
      del: str_nat.simps)

lemma zpad_inj: "0 \<le> i \<Longrightarrow> 0 \<le> j \<Longrightarrow> zpad w i = zpad w j \<Longrightarrow> i = j"
  using digits_value_zpad [of i w] digits_value_zpad [of j w] by simp

lemma length_zpad_2: "0 \<le> i \<Longrightarrow> i < 100 \<Longrightarrow> length (zpad 2 i) = 2"
proof -
  assume a: "0 \<le> i" "i < 100"
  have t: "nat i div 10 < 10" using a by linarith
  have u: "str_nat (nat i div 10) = [digit_char (nat i div 10)]"
    using t by (subst str_nat.simps) (simp del: str_nat.simps)
  have "length (str_nat (nat i)) = (if nat i < 10 then 1 else 2)"
    by (subst str_nat.simps) (simp add: u del: str_nat.simps)
  then show ?thesis using a by (simp add: zpad_def Let_def str_int_def del: str_nat.simps)
qed

lemma ymd2ord_ord2ymd: "ymd2ord (year_of n) (month_of n) (day_of n) = n"
  by (rule ord2ymd_fields [THEN conjunct1])

lemma month_of_range: "1 \<le> month_of n \<and> month_of n \<le> 12"
  using ord2ymd_fields [of n] by blast

lemma day_of_month: "day_of n \<le> days_in_month (year_of n) (month_of n)"
  using ord2ymd_fields [of n] by blast

lemma days_in_month_le: "days_in_month y m \<le> 31"
  by (simp add: days_in_month_def DAYS_IN_MONTH_def)

lemma day_of_range: "1 \<le> day_of n \<and> day_of n \<le> 31"
proof -
  have "1 \<le> day_of n" using ord2ymd_fields [of n] by blast
  moreover have "day_of n \<le> 31"
    using day_of_month [of n] days_in_month_le [of "year_of n" "month_of n"] by linarith
  ultimately show ?thesis by simp
qed

text \<open>The stamp \<^verbatim>\<open>%Y%m%d\<close> determines the date.\<close>

lemma strftime_Ymd:
  "strftime ''%Y%m%d'' d = zpad 4 (year_of d) @ zpad 2 (month_of d) @ zpad 2 (day_of d)"
  by (simp del: str_nat.simps)

lemma length_zpad_month: "length (zpad 2 (month_of n)) = 2"
  using month_of_range [of n] by (intro length_zpad_2) simp_all

lemma length_zpad_day: "length (zpad 2 (day_of n)) = 2"
  using day_of_range [of n] by (intro length_zpad_2) simp_all

lemma append_eq_split_right:
  "length us = length vs \<Longrightarrow> xs @ us = ys @ vs \<Longrightarrow> xs = ys \<and> us = vs"
  by simp

lemma append_eq_split_left:
  "length xs = length ys \<Longrightarrow> xs @ us = ys @ vs \<Longrightarrow> xs = ys \<and> us = vs"
  by simp

lemma strftime_Ymd_inj:
  assumes "1 \<le> d1" "1 \<le> d2" "strftime ''%Y%m%d'' d1 = strftime ''%Y%m%d'' d2"
  shows "d1 = d2"
proof -
  have e: "zpad 4 (year_of d1) @ zpad 2 (month_of d1) @ zpad 2 (day_of d1)
         = zpad 4 (year_of d2) @ zpad 2 (month_of d2) @ zpad 2 (day_of d2)"
    using assms(3) unfolding strftime_Ymd .
  have "length (zpad 2 (month_of d1) @ zpad 2 (day_of d1))
          = length (zpad 2 (month_of d2) @ zpad 2 (day_of d2))"
    by (simp only: length_append length_zpad_month length_zpad_day)
  then have "zpad 4 (year_of d1) = zpad 4 (year_of d2)
      \<and> zpad 2 (month_of d1) @ zpad 2 (day_of d1) = zpad 2 (month_of d2) @ zpad 2 (day_of d2)"
    using e by (rule append_eq_split_right)
  then have y: "zpad 4 (year_of d1) = zpad 4 (year_of d2)"
    and md: "zpad 2 (month_of d1) @ zpad 2 (day_of d1) = zpad 2 (month_of d2) @ zpad 2 (day_of d2)"
    by (rule conjunct1, rule conjunct2)
  have "length (zpad 2 (month_of d1)) = length (zpad 2 (month_of d2))"
    by (simp only: length_zpad_month)
  then have "zpad 2 (month_of d1) = zpad 2 (month_of d2)
      \<and> zpad 2 (day_of d1) = zpad 2 (day_of d2)"
    using md by (rule append_eq_split_left)
  then have m: "zpad 2 (month_of d1) = zpad 2 (month_of d2)"
    and d: "zpad 2 (day_of d1) = zpad 2 (day_of d2)"
    by (rule conjunct1, rule conjunct2)
  have ye: "year_of d1 = year_of d2"
    using year_of_pos [OF assms(1)] year_of_pos [OF assms(2)] y
    by (intro zpad_inj [of _ _ 4]) linarith+
  have me: "month_of d1 = month_of d2"
    using month_of_range [of d1] month_of_range [of d2] m
    by (intro zpad_inj [of _ _ 2]) linarith+
  have de: "day_of d1 = day_of d2"
    using day_of_range [of d1] day_of_range [of d2] d
    by (intro zpad_inj [of _ _ 2]) linarith+
  have "d1 = ymd2ord (year_of d1) (month_of d1) (day_of d1)"
    by (rule ymd2ord_ord2ymd [symmetric])
  also have "\<dots> = ymd2ord (year_of d2) (month_of d2) (day_of d2)"
    by (simp only: ye me de)
  also have "\<dots> = d2"
    by (rule ymd2ord_ord2ymd)
  finally show ?thesis .
qed

text \<open>The days before a month and before a year grow with the month and the year.\<close>

lemma month_cases:
  fixes m :: int
  assumes "1 \<le> m" "m \<le> 12"
  shows "m = 1 \<or> m = 2 \<or> m = 3 \<or> m = 4 \<or> m = 5 \<or> m = 6 \<or> m = 7 \<or> m = 8
         \<or> m = 9 \<or> m = 10 \<or> m = 11 \<or> m = 12"
  using assms by presburger

lemma days_in_month_pos: "1 \<le> days_in_month y m"
  by (simp add: days_in_month_def DAYS_IN_MONTH_def)

lemma days_before_month_next:
  assumes "1 \<le> m" "m \<le> 11"
  shows "days_before_month y (m + 1) = days_before_month y m + days_in_month y m"
proof -
  have "m = 1 \<or> m = 2 \<or> m = 3 \<or> m = 4 \<or> m = 5 \<or> m = 6 \<or> m = 7 \<or> m = 8
         \<or> m = 9 \<or> m = 10 \<or> m = 11"
    using assms by presburger
  then show ?thesis
    by (elim disjE)
      (simp_all add: days_before_month_def days_in_month_def DAYS_BEFORE_MONTH_def
        DAYS_IN_MONTH_def)
qed

lemma days_before_month_mono:
  assumes "1 \<le> m" "m \<le> m'" "m' \<le> 12"
  shows "days_before_month y m \<le> days_before_month y m'"
proof -
  have "m' \<le> 12 \<longrightarrow> days_before_month y m \<le> days_before_month y m'"
    using assms(2)
  proof (induction m' rule: int_ge_induct)
    case base
    show ?case by simp
  next
    case (step i)
    show ?case
    proof
      assume "i + 1 \<le> 12"
      then have i: "1 \<le> i" "i \<le> 11" using step.hyps assms(1) by linarith+
      have "days_before_month y m \<le> days_before_month y i" using step.IH i by simp
      moreover have "days_before_month y (i + 1) = days_before_month y i + days_in_month y i"
        using i by (rule days_before_month_next)
      moreover have "1 \<le> days_in_month y i" by (rule days_in_month_pos)
      ultimately show "days_before_month y m \<le> days_before_month y (i + 1)" by linarith
    qed
  qed
  then show ?thesis using assms(3) by simp
qed

lemma days_before_month_first: "days_before_month y 1 = 0"
  by (simp add: days_before_month_def DAYS_BEFORE_MONTH_def)

lemma days_before_month_last:
  "days_before_month y 12 + days_in_month y 12 = 365 + (if is_leap y then 1 else 0)"
  by (simp add: days_before_month_def days_in_month_def DAYS_BEFORE_MONTH_def DAYS_IN_MONTH_def)

text \<open>A day of a year is among the 365 or 366 days of that year.\<close>

lemma day_within_year:
  assumes "1 \<le> m" "m \<le> 12" "d \<le> days_in_month y m"
  shows "days_before_month y m + d \<le> 365 + (if is_leap y then 1 else 0)"
proof (cases "m = 12")
  case True
  then show ?thesis using assms(3) days_before_month_last [of y] by simp
next
  case False
  then have m: "m \<le> 11" using assms(2) by simp
  have "days_before_month y m + d \<le> days_before_month y (m + 1)"
    using days_before_month_next [OF assms(1) m, of y] assms(3) by simp
  also have "\<dots> \<le> days_before_month y 12"
    by (rule days_before_month_mono) (use assms(1) m in simp_all)
  also have "\<dots> \<le> 365 + (if is_leap y then 1 else 0)"
    using days_before_month_last [of y] days_in_month_pos [of y 12] by linarith
  finally show ?thesis .
qed

text \<open>Every year is written in the parts of the 400-year cycle.\<close>

lemma year_in_parts:
  fixes y :: int
  obtains a b c d where "y = 400 * a + 100 * b + 4 * c + d + 1"
    "0 \<le> b" "b \<le> 3" "0 \<le> c" "c \<le> 24" "0 \<le> d" "d \<le> 3"
proof -
  define a where "a = (y - 1) div 400"
  define r where "r = (y - 1) mod 400"
  define b where "b = r div 100"
  define s where "s = r mod 100"
  define c where "c = s div 4"
  define d where "d = s mod 4"
  have r: "0 \<le> r" "r < 400" "y - 1 = 400 * a + r" by (simp_all add: r_def a_def)
  have s: "0 \<le> s" "s < 100" "r = 100 * b + s" by (simp_all add: s_def b_def)
  have d: "0 \<le> d" "d < 4" "s = 4 * c + d" by (simp_all add: d_def c_def)
  have b0: "0 \<le> b" unfolding b_def using r(1) by (simp add: pos_imp_zdiv_nonneg_iff)
  have c0: "0 \<le> c" unfolding c_def using s(1) by (simp add: pos_imp_zdiv_nonneg_iff)
  have "y = 400 * a + 100 * b + 4 * c + d + 1" using r(3) s(3) d(3) by simp
  moreover have "b \<le> 3" using r s by linarith
  moreover have "c \<le> 24" using s d by linarith
  moreover have "d \<le> 3" using d by simp
  ultimately show ?thesis using that b0 c0 d(1) by blast
qed

lemma days_before_year_next:
  "days_before_year (y + 1) = days_before_year y + 365 + (if is_leap y then 1 else 0)"
proof -
  obtain a b c d where y: "y = 400 * a + 100 * b + 4 * c + d + 1"
    and bnd: "0 \<le> b" "b \<le> 3" "0 \<le> c" "c \<le> 24" "0 \<le> d" "d \<le> 3"
    by (rule year_in_parts)
  have dy: "days_before_year y = 146097 * a + 36524 * b + 1461 * c + 365 * d"
    unfolding y by (rule days_before_year_parts) (rule bnd)+
  have ly: "is_leap y \<longleftrightarrow> d = 3 \<and> (c \<noteq> 24 \<or> b = 3)"
    unfolding y by (rule is_leap_parts) (rule bnd)+
  consider (day) "d \<le> 2" | (four) "d = 3" "c \<le> 23" | (cent) "d = 3" "c = 24" "b \<le> 2"
    | (cycle) "d = 3" "c = 24" "b = 3"
    using bnd by linarith
  then show ?thesis
  proof cases
    case day
    have e: "y + 1 = 400 * a + 100 * b + 4 * c + (d + 1) + 1" using y by simp
    have "days_before_year (y + 1) = 146097 * a + 36524 * b + 1461 * c + 365 * (d + 1)"
      unfolding e by (rule days_before_year_parts) (use bnd day in simp_all)
    then show ?thesis using dy ly day by simp
  next
    case four
    have e: "y + 1 = 400 * a + 100 * b + 4 * (c + 1) + 0 + 1" using y four by simp
    have "days_before_year (y + 1) = 146097 * a + 36524 * b + 1461 * (c + 1) + 365 * 0"
      unfolding e by (rule days_before_year_parts) (use bnd four in simp_all)
    then show ?thesis using dy ly four by simp
  next
    case cent
    have e: "y + 1 = 400 * a + 100 * (b + 1) + 4 * 0 + 0 + 1" using y cent by simp
    have "days_before_year (y + 1) = 146097 * a + 36524 * (b + 1) + 1461 * 0 + 365 * 0"
      unfolding e by (rule days_before_year_parts) (use bnd cent in simp_all)
    then show ?thesis using dy ly cent by simp
  next
    case cycle
    have e: "y + 1 = 400 * (a + 1) + 100 * 0 + 4 * 0 + 0 + 1" using y cycle by simp
    have "days_before_year (y + 1) = 146097 * (a + 1) + 36524 * 0 + 1461 * 0 + 365 * 0"
      unfolding e by (rule days_before_year_parts) simp_all
    then show ?thesis using dy ly cycle by simp
  qed
qed

lemma days_before_year_mono:
  assumes "y \<le> y'"
  shows "days_before_year y \<le> days_before_year y'"
  using assms
proof (induction y' rule: int_ge_induct)
  case base
  show ?case by simp
next
  case (step i)
  then show ?case using days_before_year_next [of i] by (simp split: if_splits)
qed

text \<open>
  The ordinal grows with the fields in their lexicographic order, for fields that are a day
  of the calendar.
\<close>

lemma ymd2ord_less:
  assumes "1 \<le> m" "m \<le> 12" "d \<le> days_in_month y m"
    and "1 \<le> m'" "m' \<le> 12" "1 \<le> d'"
    and "y < y' \<or> (y = y' \<and> (m < m' \<or> (m = m' \<and> d < d')))"
  shows "ymd2ord y m d < ymd2ord y' m' d'"
proof -
  have first: "0 \<le> days_before_month y' m'"
    using days_before_month_mono [of 1 m' y'] assms(4,5) by (simp add: days_before_month_first)
  consider (year) "y < y'" | (month) "y = y'" "m < m'" | (day) "y = y'" "m = m'" "d < d'"
    using assms(7) by blast
  then show ?thesis
  proof cases
    case year
    have "days_before_year y + (days_before_month y m + d) \<le> days_before_year (y + 1)"
      using day_within_year [OF assms(1-3)] days_before_year_next [of y] by linarith
    also have "\<dots> \<le> days_before_year y'"
      by (rule days_before_year_mono) (use year in simp)
    finally show ?thesis using first assms(6) by (simp add: ymd2ord_def)
  next
    case month
    then have m: "m \<le> 11" using assms(5) by simp
    have "days_before_month y m + d \<le> days_before_month y (m + 1)"
      using days_before_month_next [OF assms(1) m, of y] assms(3) by simp
    also have "\<dots> \<le> days_before_month y m'"
      by (rule days_before_month_mono) (use assms(1,5) month in simp_all)
    finally show ?thesis using month assms(6) by (simp add: ymd2ord_def)
  next
    case day
    then show ?thesis by (simp add: ymd2ord_def)
  qed
qed

lemma fields_less:
  assumes "x < y"
  shows "year_of x < year_of y
         \<or> (year_of x = year_of y
             \<and> (month_of x < month_of y
                 \<or> (month_of x = month_of y \<and> day_of x < day_of y)))"
proof (rule ccontr)
  assume n: "\<not> ?thesis"
  have "(year_of x = year_of y \<and> month_of x = month_of y \<and> day_of x = day_of y)
        \<or> (year_of y < year_of x
            \<or> (year_of y = year_of x
                \<and> (month_of y < month_of x
                    \<or> (month_of y = month_of x \<and> day_of y < day_of x))))"
    using n by linarith
  then show False
  proof
    assume e: "year_of x = year_of y \<and> month_of x = month_of y \<and> day_of x = day_of y"
    have "x = ymd2ord (year_of x) (month_of x) (day_of x)"
      by (rule ymd2ord_ord2ymd [symmetric])
    also have "\<dots> = ymd2ord (year_of y) (month_of y) (day_of y)"
      using e by simp
    also have "\<dots> = y" by (rule ymd2ord_ord2ymd)
    finally show False using assms by simp
  next
    assume l: "year_of y < year_of x
            \<or> (year_of y = year_of x
                \<and> (month_of y < month_of x
                    \<or> (month_of y = month_of x \<and> day_of y < day_of x)))"
    have "ymd2ord (year_of y) (month_of y) (day_of y) < ymd2ord (year_of x) (month_of x) (day_of x)"
      using month_of_range [of y] day_of_month [of y] month_of_range [of x] day_of_range [of x] l
      by (intro ymd2ord_less) simp_all
    then have "y < x" by (simp only: ymd2ord_ord2ymd)
    then show False using assms by simp
  qed
qed

lemma year_of_mono: "x \<le> y \<Longrightarrow> year_of x \<le> year_of y"
proof -
  assume "x \<le> y"
  then consider "x = y" | "x < y" by linarith
  then show ?thesis
  proof cases
    case 1
    then show ?thesis by simp
  next
    case 2
    then show ?thesis using fields_less [OF 2] by linarith
  qed
qed

lemma year_of_min: "year_of 1 = 1"
  by code_simp

lemma year_of_max: "year_of 3652059 = 9999"
  by code_simp

lemma year_of_range: "valid_date d \<Longrightarrow> 1 \<le> year_of d \<and> year_of d \<le> 9999"
  using year_of_mono [of 1 d] year_of_mono [of d 3652059]
  by (simp add: valid_date_def MAXORDINAL_def year_of_min year_of_max)

text \<open>
  Texts of equal length are ordered as their first difference; a zero-padded decimal text
  of a fixed width grows with its number.
\<close>

lemma append_less_left: "us < vs \<Longrightarrow> xs @ us < xs @ (vs :: 'a :: linorder list)"
  by (induction xs) simp_all

lemma append_less_right:
  "length xs = length ys \<Longrightarrow> xs < ys \<Longrightarrow> xs @ us < ys @ (vs :: 'a :: linorder list)"
  by (induction xs ys rule: list_induct2) auto

lemma digit_char_code: "of_char (digit_char k) = (48::nat) + k mod 10"
proof -
  have "k mod 10 = 0 \<or> k mod 10 = 1 \<or> k mod 10 = 2 \<or> k mod 10 = 3 \<or> k mod 10 = 4
      \<or> k mod 10 = 5 \<or> k mod 10 = 6 \<or> k mod 10 = 7 \<or> k mod 10 = 8 \<or> k mod 10 = 9"
    by presburger
  then show ?thesis by (elim disjE) (simp_all add: digit_char_def)
qed

lemma digit_char_less: "a mod 10 < b mod 10 \<Longrightarrow> digit_char a < digit_char b"
  by (simp add: less_char_def digit_char_code)

lemma str_nat_digit: "n < 10 \<Longrightarrow> str_nat n = [digit_char n]"
  by (subst str_nat.simps) (simp del: str_nat.simps)

lemma str_nat_snoc: "10 \<le> n \<Longrightarrow> str_nat n = str_nat (n div 10) @ [digit_char n]"
  by (subst str_nat.simps) (simp del: str_nat.simps)

lemma zpad_digit: "0 \<le> i \<Longrightarrow> i < 10 \<Longrightarrow> zpad (Suc 0) i = [digit_char (nat i)]"
  by (simp add: zpad_def Let_def str_int_def str_nat_digit del: str_nat.simps)

lemma zpad_snoc:
  assumes "0 \<le> i"
  shows "zpad (Suc (Suc w)) i = zpad (Suc w) (i div 10) @ [digit_char (nat i)]"
proof -
  have d: "nat (i div 10) = nat i div 10" using assms by (simp add: nat_div_distrib)
  have p: "0 \<le> i div 10" using assms by (simp add: pos_imp_zdiv_nonneg_iff)
  show ?thesis
  proof (cases "nat i < 10")
    case True
    then have z: "nat i div 10 = 0" by simp
    have r: "replicate w CHR ''0'' @ [CHR ''0''] = replicate (Suc w) CHR ''0''"
      by (simp add: replicate_append_same)
    have "zpad (Suc (Suc w)) i = replicate (Suc w) CHR ''0'' @ [digit_char (nat i)]"
      using True assms by (simp add: zpad_def Let_def str_int_def str_nat_digit del: str_nat.simps)
    moreover have "zpad (Suc w) (i div 10) = replicate w CHR ''0'' @ [CHR ''0'']"
      using p by (simp add: zpad_def Let_def str_int_def d z str_nat_digit digit_char_def
          del: str_nat.simps)
    ultimately show ?thesis by (simp only: r)
  next
    case False
    then have s: "str_nat (nat i) = str_nat (nat i div 10) @ [digit_char (nat i)]"
      by (intro str_nat_snoc) simp
    show ?thesis
      using assms p by (simp add: zpad_def Let_def str_int_def d s del: str_nat.simps)
  qed
qed

lemma length_zpad: "0 \<le> i \<Longrightarrow> i < 10 ^ Suc w \<Longrightarrow> length (zpad (Suc w) i) = Suc w"
proof (induction w arbitrary: i)
  case 0
  then show ?case by (simp add: zpad_digit)
next
  case (Suc w)
  have "0 \<le> i div 10" using Suc.prems(1) by (simp add: pos_imp_zdiv_nonneg_iff)
  moreover have "i div 10 < 10 ^ Suc w" using Suc.prems(2) by simp
  ultimately have "length (zpad (Suc w) (i div 10)) = Suc w" by (rule Suc.IH)
  then show ?case using Suc.prems(1) by (simp add: zpad_snoc)
qed

lemma zpad_less:
  "0 \<le> i \<Longrightarrow> i < j \<Longrightarrow> j < 10 ^ Suc w \<Longrightarrow> zpad (Suc w) i < zpad (Suc w) j"
proof (induction w arbitrary: i j)
  case 0
  have "nat i mod 10 < nat j mod 10" using 0 by simp
  then have "digit_char (nat i) < digit_char (nat j)" by (rule digit_char_less)
  then show ?case using 0 by (simp add: zpad_digit)
next
  case (Suc w)
  have i: "0 \<le> i div 10" using Suc.prems(1) by (simp add: pos_imp_zdiv_nonneg_iff)
  have j0: "0 \<le> j" using Suc.prems by simp
  have j: "0 \<le> j div 10" using j0 by (simp add: pos_imp_zdiv_nonneg_iff)
  have jb: "j div 10 < 10 ^ Suc w" using Suc.prems(3) by simp
  have le: "i div 10 \<le> j div 10" using Suc.prems(2) by (simp add: zdiv_mono1)
  have e: "zpad (Suc (Suc w)) i = zpad (Suc w) (i div 10) @ [digit_char (nat i)]"
    "zpad (Suc (Suc w)) j = zpad (Suc w) (j div 10) @ [digit_char (nat j)]"
    using Suc.prems(1) j0 by (simp_all only: zpad_snoc)
  show ?case
  proof (cases "i div 10 = j div 10")
    case True
    have "i mod 10 < j mod 10"
      using Suc.prems(2) True by (metis add_strict_left_mono div_mult_mod_eq not_less_iff_gr_or_eq)
    then have "nat (i mod 10) < nat (j mod 10)" by simp
    then have "nat i mod 10 < nat j mod 10"
      using Suc.prems(1) j0 by (simp add: nat_mod_distrib)
    then have "digit_char (nat i) < digit_char (nat j)" by (rule digit_char_less)
    then show ?thesis unfolding e True by (intro append_less_left) simp
  next
    case False
    then have "i div 10 < j div 10" using le by simp
    then have l: "zpad (Suc w) (i div 10) < zpad (Suc w) (j div 10)"
      using i jb by (intro Suc.IH)
    have "i div 10 < 10 ^ Suc w" using \<open>i div 10 < j div 10\<close> jb by simp
    then have "length (zpad (Suc w) (i div 10)) = length (zpad (Suc w) (j div 10))"
      using i j jb by (simp only: length_zpad)
    then show ?thesis unfolding e using l by (rule append_less_right)
  qed
qed

lemma zpad4_less: "0 \<le> i \<Longrightarrow> i < j \<Longrightarrow> j \<le> 9999 \<Longrightarrow> zpad 4 i < zpad 4 j"
  using zpad_less [of i j 3] by (simp add: eval_nat_numeral)

lemma zpad2_less: "0 \<le> i \<Longrightarrow> i < j \<Longrightarrow> j \<le> 99 \<Longrightarrow> zpad 2 i < zpad 2 j"
  using zpad_less [of i j 1] by (simp add: eval_nat_numeral)

lemma length_zpad4: "0 \<le> i \<Longrightarrow> i \<le> 9999 \<Longrightarrow> length (zpad 4 i) = 4"
  using length_zpad [of i 3] by (simp add: eval_nat_numeral)

lemma length_zpad_year: "valid_date d \<Longrightarrow> length (zpad 4 (year_of d)) = 4"
  using year_of_range [of d] by (intro length_zpad4) simp_all

text \<open>The ISO text of a later date is the greater text, for the dates of years 1 to 9999.\<close>

lemma isoformat_less:
  assumes "valid_date x" "valid_date y" "x < y"
  shows "isoformat x < isoformat y"
proof -
  note yx = year_of_range [OF assms(1)] and yy = year_of_range [OF assms(2)]
  note mx = month_of_range [of x] and my = month_of_range [of y]
  note dx = day_of_range [of x] and dy = day_of_range [of y]
  consider (year) "year_of x < year_of y"
    | (month) "year_of x = year_of y" "month_of x < month_of y"
    | (day) "year_of x = year_of y" "month_of x = month_of y" "day_of x < day_of y"
    using fields_less [OF assms(3)] by blast
  then show ?thesis
  proof cases
    case year
    have "zpad 4 (year_of x) < zpad 4 (year_of y)"
      using yx yy year by (intro zpad4_less) simp_all
    moreover have "length (zpad 4 (year_of x)) = length (zpad 4 (year_of y))"
      using assms(1,2) by (simp only: length_zpad_year)
    ultimately show ?thesis
      unfolding isoformat_def by (intro append_less_right)
  next
    case month
    have "zpad 2 (month_of x) < zpad 2 (month_of y)"
      using mx my month by (intro zpad2_less) simp_all
    moreover have "length (zpad 2 (month_of x)) = length (zpad 2 (month_of y))"
      by (simp only: length_zpad_month)
    ultimately have "zpad 2 (month_of x) @ ''-'' @ zpad 2 (day_of x)
                       < zpad 2 (month_of y) @ ''-'' @ zpad 2 (day_of y)"
      by (intro append_less_right)
    then have "''-'' @ zpad 2 (month_of x) @ ''-'' @ zpad 2 (day_of x)
                 < ''-'' @ zpad 2 (month_of y) @ ''-'' @ zpad 2 (day_of y)"
      by (rule append_less_left)
    then show ?thesis
      unfolding isoformat_def month(1) by (rule append_less_left)
  next
    case day
    have "zpad 2 (day_of x) < zpad 2 (day_of y)"
      using dx dy day by (intro zpad2_less) simp_all
    then have "''-'' @ zpad 2 (day_of x) < ''-'' @ zpad 2 (day_of y)"
      by (rule append_less_left)
    then have "zpad 2 (month_of y) @ ''-'' @ zpad 2 (day_of x)
                < zpad 2 (month_of y) @ ''-'' @ zpad 2 (day_of y)"
      by (rule append_less_left)
    then have "''-'' @ zpad 2 (month_of y) @ ''-'' @ zpad 2 (day_of x)
                < ''-'' @ zpad 2 (month_of y) @ ''-'' @ zpad 2 (day_of y)"
      by (rule append_less_left)
    then show ?thesis
      unfolding isoformat_def day(1) day(2) by (rule append_less_left)
  qed
qed

lemma isoformat_le_iff:
  assumes "valid_date x" "valid_date y"
  shows "isoformat x \<le> isoformat y \<longleftrightarrow> x \<le> y"
proof
  assume l: "isoformat x \<le> isoformat y"
  show "x \<le> y"
  proof (rule ccontr)
    assume "\<not> x \<le> y"
    then have "y < x" by simp
    then have "isoformat y < isoformat x" using assms by (intro isoformat_less)
    then show False using l by simp
  qed
next
  assume "x \<le> y"
  then consider "x = y" | "x < y" by linarith
  then show "isoformat x \<le> isoformat y"
  proof cases
    case 1
    then show ?thesis by simp
  next
    case 2
    then have "isoformat x < isoformat y" using assms by (intro isoformat_less)
    then show ?thesis by simp
  qed
qed

lemma isoformat_inj:
  assumes "valid_date x" "valid_date y" "isoformat x = isoformat y"
  shows "x = y"
  using isoformat_le_iff [OF assms(1,2)] isoformat_le_iff [OF assms(2,1)] assms(3) by simp

lemma length_strftime_Ymd: "valid_date d \<Longrightarrow> length (strftime ''%Y%m%d'' d) = 8"
  unfolding strftime_Ymd
  by (simp only: length_append length_zpad_year length_zpad_month length_zpad_day)

subsection \<open>The selection and the frame\<close>

lemma joined_loans: "j \<in> set (joined db) \<Longrightarrow> fst j \<in> set (loans db)"
  by (auto simp: joined_def)

lemma set_insert_by_due: "set (insert_by_due j ks) = insert j (set ks)"
  by (induction ks) auto

lemma set_order_by_due: "set (order_by_due ks) = set ks"
  by (induction ks) (simp_all add: order_by_due_def set_insert_by_due)

lemma length_isoformat: "valid_date d \<Longrightarrow> length (isoformat d) = 10"
  unfolding isoformat_def
  by (simp only: length_append length_zpad_year length_zpad_month length_zpad_day) simp

lemma date_add_Inr: "date_add d n = Inr c \<Longrightarrow> c = d + n \<and> valid_date c"
  by (simp add: date_add_def split: if_splits)

lemma date_add_Inl: "date_add d n = Inl e \<Longrightarrow> e = OverflowError"
  by (simp add: date_add_def split: if_splits)

text \<open>
  The comparisons of the store on the texts of dates and of timestamps, read on the days:
  the text of a timestamp is greater than the text of its day.
\<close>

lemma sql_le_date:
  "valid_date x \<Longrightarrow> valid_date d \<Longrightarrow> sql_le (DateCell x) d \<longleftrightarrow> x \<le> d"
  by (simp add: sql_le_def isoformat_le_iff)

lemma sql_ge_date:
  "valid_date x \<Longrightarrow> valid_date d \<Longrightarrow> sql_ge (DateCell x) d \<longleftrightarrow> d \<le> x"
  by (simp add: sql_ge_def isoformat_le_iff)

lemma sql_date_le_dates:
  "valid_date x \<Longrightarrow> valid_date y \<Longrightarrow> sql_date_le (DateCell x) (DateCell y) \<longleftrightarrow> x \<le> y"
  by (simp add: sql_date_le_def isoformat_le_iff)

lemma sql_le_stamp:
  assumes "valid_date x" "valid_date d"
  shows "sql_le (StampCell x t) d \<longleftrightarrow> x < d"
proof
  assume l: "sql_le (StampCell x t) d"
  show "x < d"
  proof (rule ccontr)
    assume "\<not> x < d"
    then consider "d = x" | "d < x" by linarith
    then have "isoformat d @ [] < isoformat x @ '' '' @ t"
    proof cases
      case 1
      show ?thesis unfolding 1 by (rule append_less_left) simp
    next
      case 2
      then have "isoformat d < isoformat x" using assms by (intro isoformat_less)
      moreover have "length (isoformat d) = length (isoformat x)"
        using assms by (simp only: length_isoformat)
      ultimately show ?thesis by (rule append_less_right [rotated])
    qed
    then show False using l by (simp add: sql_le_def)
  qed
next
  assume "x < d"
  then have "isoformat x < isoformat d" using assms by (intro isoformat_less)
  moreover have "length (isoformat x) = length (isoformat d)"
    using assms by (simp only: length_isoformat)
  ultimately have "isoformat x @ '' '' @ t < isoformat d @ []"
    by (rule append_less_right [rotated])
  then show "sql_le (StampCell x t) d" by (simp add: sql_le_def)
qed

lemma sql_ge_stamp:
  assumes "valid_date x" "valid_date d"
  shows "sql_ge (StampCell x t) d \<longleftrightarrow> d \<le> x"
proof
  assume l: "sql_ge (StampCell x t) d"
  show "d \<le> x"
  proof (rule ccontr)
    assume "\<not> d \<le> x"
    then have "x < d" by simp
    then have "sql_le (StampCell x t) d" using assms by (simp add: sql_le_stamp)
    moreover have "cell_text (StampCell x t) \<noteq> isoformat d"
      using assms by (metis cell_text.simps(2) length_append length_isoformat
          add_cancel_right_right length_0_conv list.distinct(1) append_is_Nil_conv)
    ultimately show False using l by (simp add: sql_le_def sql_ge_def)
  qed
next
  assume "d \<le> x"
  then have "\<not> x < d" by simp
  then have "\<not> sql_le (StampCell x t) d" using assms by (simp add: sql_le_stamp)
  then show "sql_ge (StampCell x t) d" by (simp add: sql_le_def sql_ge_def)
qed

lemma insert_by_due_dates:
  "is_date (due_date (fst j)) \<Longrightarrow> \<forall>k \<in> set ks. is_date (due_date (fst k)) \<Longrightarrow>
   insert_by_due j ks = insort_key due_key j ks"
  by (induction ks)
     (auto simp: is_date_def due_key_def sql_date_le_dates split: sql_date.splits)

lemma order_by_due_dates:
  "\<forall>k \<in> set ks. is_date (due_date (fst k)) \<Longrightarrow> order_by_due ks = sort_key due_key ks"
proof (induction ks)
  case Nil
  then show ?case by (simp add: order_by_due_def)
next
  case (Cons k ks)
  then have "order_by_due ks = sort_key due_key ks" by simp
  moreover have "order_by_due (k # ks) = insert_by_due k (order_by_due ks)"
    by (simp add: order_by_due_def)
  moreover have "\<forall>x \<in> set (sort_key due_key ks). is_date (due_date (fst x))"
    using Cons.prems by simp
  ultimately show ?case
    using Cons.prems by (simp add: insert_by_due_dates)
qed

lemma where_clause_dates:
  "is_date (due_date (fst j)) \<Longrightarrow> valid_date today \<Longrightarrow> valid_date cutoff \<Longrightarrow>
   where_clause inc today cutoff j \<longleftrightarrow>
     (loan_status (fst j) \<noteq> ''Paid'' \<and> due_key j \<le> cutoff \<and> (inc \<or> today \<le> due_key j))"
  by (auto simp: where_clause_def due_filter_def is_date_def due_key_def sql_le_date sql_ge_date
      split: sql_date.splits)

text \<open>A row that the query selects and pandas converts is due by the cutoff.\<close>

lemma selected_day:
  assumes "sql_le c cutoff" "cell_form c \<noteq> None" "valid_date cutoff"
  shows "cell_day c \<le> cutoff"
proof (cases c)
  case (DateCell d)
  then show ?thesis using assms by (simp add: sql_le_date split: if_splits)
next
  case (StampCell d t)
  then show ?thesis using assms by (simp add: sql_le_stamp split: if_splits)
qed (use assms in simp_all)

lemma selected_day_from:
  assumes "sql_ge c today" "cell_form c \<noteq> None" "valid_date today"
  shows "today \<le> cell_day c"
proof (cases c)
  case (DateCell d)
  then show ?thesis using assms by (simp add: sql_ge_date split: if_splits)
next
  case (StampCell d t)
  then show ?thesis using assms by (simp add: sql_ge_stamp split: if_splits)
qed (use assms in simp_all)

lemma convert_Inr:
  "convert f cs = Inr ts \<Longrightarrow>
   list_all2 (\<lambda>c t. (c = EmptyCell \<and> t = None) \<or> (cell_form c \<noteq> None \<and> t = Some (cell_day c)))
     cs ts"
proof (induction cs arbitrary: f ts)
  case Nil
  then show ?case by simp
next
  case (Cons c cs)
  show ?case
  proof (cases "c = EmptyCell")
    case True
    then obtain us where "convert f cs = Inr us" "ts = None # us"
      using Cons.prems by (auto split: sum.splits)
    then show ?thesis using Cons.IH True by simp
  next
    case False
    then obtain g us where "cell_form c = Some g" "convert (Some g) cs = Inr us"
      "ts = Some (cell_day c) # us"
      using Cons.prems by (auto split: sum.splits option.splits if_splits)
    then show ?thesis using Cons.IH False by simp
  qed
qed

lemma convert_text:
  "TextCell s \<in> set cs \<Longrightarrow> \<exists>s'. convert f cs = Inl (ParserError s')"
proof (induction cs arbitrary: f)
  case Nil
  then show ?case by simp
next
  case (Cons c cs)
  show ?case
  proof (cases "c = TextCell s")
    case True
    then show ?thesis by simp
  next
    case False
    then have "TextCell s \<in> set cs" using Cons.prems by simp
    then have ih: "\<exists>s'. convert g cs = Inl (ParserError s')" for g
      by (rule Cons.IH)
    show ?thesis
    proof (cases "c = EmptyCell")
      case True
      then show ?thesis using ih [of f] by auto
    next
      case False
      show ?thesis
      proof (cases "cell_form c")
        case None
        then show ?thesis using False by simp
      next
        case (Some g)
        then show ?thesis using False ih [of "Some g"] by auto
      qed
    qed
  qed
qed

lemma to_datetime_text:
  "TextCell s \<in> set cs \<Longrightarrow> \<exists>s'. to_datetime cs = Inl (ParserError s')"
  unfolding to_datetime_def by (rule convert_text)

lemma convert_dates:
  "\<forall>c \<in> set cs. is_date c \<Longrightarrow> f \<noteq> Some IsoStamp \<Longrightarrow>
   convert f cs = Inr (map (\<lambda>c. Some (cell_day c)) cs)"
proof (induction cs arbitrary: f)
  case Nil
  then show ?case by simp
next
  case (Cons c cs)
  obtain d where c: "c = DateCell d" "valid_date d"
    using Cons.prems(1) by (cases c) (simp_all add: is_date_def)
  have "convert (Some IsoDate) cs = Inr (map (\<lambda>c. Some (cell_day c)) cs)"
    using Cons.prems(1) by (intro Cons.IH) simp_all
  moreover have "f = None \<or> f = Some IsoDate"
    using Cons.prems(2) by (cases f) (auto intro: form.exhaust)
  ultimately show ?case using c by auto
qed

lemma to_datetime_dates:
  "\<forall>k \<in> set ks. is_date (due_date (fst k)) \<Longrightarrow>
   to_datetime (map r_due_date (map select_columns ks)) = Inr (map (\<lambda>k. Some (due_key k)) ks)"
proof -
  assume a: "\<forall>k \<in> set ks. is_date (due_date (fst k))"
  have m: "map r_due_date (map select_columns ks) = map (\<lambda>k. due_date (fst k)) ks"
    by (simp add: select_columns_def split: prod.splits)
  have "convert None (map (\<lambda>k. due_date (fst k)) ks)
          = Inr (map (\<lambda>c. Some (cell_day c)) (map (\<lambda>k. due_date (fst k)) ks))"
    using a by (intro convert_dates) simp_all
  then show ?thesis
    unfolding to_datetime_def m by (simp add: due_key_def comp_def)
qed

lemma dates_of_Some: "dates_of (map (\<lambda>k. Some (f k)) ks) = Inr (map f ks)"
  by (auto simp: dates_of_def comp_def)

lemma dates_of_Inr:
  assumes "dates_of ts = Inr ds"
  shows "ts = map Some ds"
proof -
  have n: "None \<notin> set ts" and d: "ds = map the ts"
    using assms by (auto simp: dates_of_def split: if_splits)
  have "map Some (map the ts) = ts"
    using n by (induction ts) auto
  then show ?thesis using d by simp
qed

lemma select_columns_fields:
  "r_due_date (select_columns j) = due_date (fst j)"
  "r_loan_status (select_columns j) = loan_status (fst j)"
  "r_loan_id (select_columns j) = loan_id (fst j)"
  by (simp_all add: select_columns_def split: prod.splits)

lemma derive_row_fields:
  "due (derive_row today x d) = d"
  "days_remaining (derive_row today x d) = d - today"
  "status (derive_row today x d) = r_loan_status x"
  "loan_ident (derive_row today x d) = r_loan_id x"
  by (simp_all add: derive_row_def)

lemma map2_derive:
  "map2 (derive_row today) (map select_columns ks) (map due_key ks)
     = map (\<lambda>j. derive_row today (select_columns j) (due_key j)) ks"
  by (induction ks) simp_all

lemma fetch_frame_overflow:
  "date_add today days = Inl e \<Longrightarrow> fetch_frame db today days inc = Inl OverflowError"
  by (simp add: fetch_frame_def date_add_def split: if_splits)

text \<open>
  When the cutoff is a date and every row that the query selects holds the ISO text of a
  date, the frame is the selected rows in the order of their due dates.
\<close>

lemma fetch_frame_selected:
  assumes "date_add today days = Inr cutoff"
    and "\<forall>j \<in> set (joined db). where_clause inc today cutoff j \<longrightarrow> is_date (due_date (fst j))"
  shows "fetch_frame db today days inc
           = Inr (map (\<lambda>j. derive_row today (select_columns j) (due_key j))
                   (sort_key due_key (filter (where_clause inc today cutoff) (joined db))))"
proof -
  let ?sel = "filter (where_clause inc today cutoff) (joined db)"
  have sel: "\<forall>j \<in> set ?sel. is_date (due_date (fst j))" using assms(2) by simp
  have o: "order_by_due ?sel = sort_key due_key ?sel"
    using sel by (rule order_by_due_dates)
  have s: "\<forall>j \<in> set (sort_key due_key ?sel). is_date (due_date (fst j))"
    using sel by simp
  show ?thesis
    by (simp add: fetch_frame_def read_sql_query_def Let_def assms(1) o to_datetime_dates [OF s]
        dates_of_Some map2_derive del: map_map)
qed

lemma fetch_frame_dates:
  assumes "date_add today days = Inr cutoff" and "valid_date today"
    and "\<forall>l \<in> set (loans db). is_date (due_date l)"
  shows "fetch_frame db today days inc
           = Inr (map (\<lambda>j. derive_row today (select_columns j) (due_key j))
                   (sort_key due_key
                      (filter (\<lambda>j. loan_status (fst j) \<noteq> ''Paid'' \<and> due_key j \<le> cutoff
                                    \<and> (inc \<or> today \<le> due_key j))
                         (joined db))))"
proof -
  have all: "\<forall>j \<in> set (joined db). is_date (due_date (fst j))"
    using assms(3) joined_loans by blast
  have c: "valid_date cutoff" using date_add_Inr [OF assms(1)] by blast
  have f: "filter (where_clause inc today cutoff) (joined db)
             = filter (\<lambda>j. loan_status (fst j) \<noteq> ''Paid'' \<and> due_key j \<le> cutoff
                                    \<and> (inc \<or> today \<le> due_key j)) (joined db)"
    by (rule filter_cong) (simp_all add: all where_clause_dates assms(2) c)
  show ?thesis
    using fetch_frame_selected [OF assms(1), of db inc] all unfolding f by simp
qed

text \<open>The rows of a frame that is returned.\<close>

lemma fetch_frame_row:
  assumes "fetch_frame db today days inc = Inr df" and "r \<in> set df"
  obtains j where "j \<in> set (joined db)" "where_clause inc today (today + days) j"
    "cell_form (due_date (fst j)) \<noteq> None" "valid_date (today + days)"
    "r = derive_row today (select_columns j) (cell_day (due_date (fst j)))"
proof -
  obtain cutoff where cut: "date_add today days = Inr cutoff"
    using assms(1) by (cases "date_add today days") (simp_all add: fetch_frame_def)
  then have c: "cutoff = today + days" "valid_date (today + days)"
    using date_add_Inr by auto
  let ?raw = "read_sql_query db inc today (today + days)"
  obtain ts ds where ts: "to_datetime (map r_due_date ?raw) = Inr ts"
    and ds: "dates_of ts = Inr ds"
    and df: "df = map2 (derive_row today) ?raw ds"
    using assms(1) cut unfolding c(1)
    by (auto simp: fetch_frame_def Let_def split: sum.splits)
  have ts': "ts = map Some ds" using ds by (rule dates_of_Inr)
  have rel: "list_all2 (\<lambda>c t. (c = EmptyCell \<and> t = None)
                             \<or> (cell_form c \<noteq> None \<and> t = Some (cell_day c)))
               (map r_due_date ?raw) (map Some ds)"
    using ts unfolding to_datetime_def ts' by (rule convert_Inr)
  then have len: "length ?raw = length ds"
    by (auto dest: list_all2_lengthD)
  obtain i where i: "i < length ds" and r: "r = derive_row today (?raw ! i) (ds ! i)"
    using assms(2) len unfolding df by (auto simp: set_zip)
  have cell: "cell_form (r_due_date (?raw ! i)) \<noteq> None"
    "ds ! i = cell_day (r_due_date (?raw ! i))"
    using list_all2_nthD [OF rel, of i] i len by simp_all
  have "?raw ! i \<in> set ?raw" using i len by simp
  then obtain j where j: "j \<in> set (joined db)" "where_clause inc today (today + days) j"
    and x: "?raw ! i = select_columns j"
    by (auto simp: read_sql_query_def set_order_by_due)
  show ?thesis
    using that [OF j] cell c(2) r unfolding x by (simp add: select_columns_fields)
qed

lemma fetch_frame_rows:
  assumes "fetch_frame db today days inc = Inr df" and "r \<in> set df"
  shows "days_remaining r = due r - today \<and> due r \<le> today + days \<and> status r \<noteq> ''Paid''"
proof -
  obtain j where j: "where_clause inc today (today + days) j"
    "cell_form (due_date (fst j)) \<noteq> None" "valid_date (today + days)"
    "r = derive_row today (select_columns j) (cell_day (due_date (fst j)))"
    using assms by (rule fetch_frame_row)
  have "sql_le (due_date (fst j)) (today + days)"
    using j(1) by (auto simp: where_clause_def due_filter_def split: if_splits)
  then have "cell_day (due_date (fst j)) \<le> today + days"
    using j(2,3) by (rule selected_day)
  moreover have "loan_status (fst j) \<noteq> ''Paid''"
    using j(1) by (simp add: where_clause_def)
  ultimately show ?thesis
    by (simp add: j(4) derive_row_fields select_columns_fields)
qed

lemma fetch_frame_rows_from:
  assumes "fetch_frame db today days inc = Inr df" and "r \<in> set df" and "valid_date today"
  shows "inc \<or> today \<le> due r"
proof -
  obtain j where j: "where_clause inc today (today + days) j"
    "cell_form (due_date (fst j)) \<noteq> None"
    "r = derive_row today (select_columns j) (cell_day (due_date (fst j)))"
    using assms(1,2) by (rule fetch_frame_row)
  have "inc \<or> sql_ge (due_date (fst j)) today"
    using j(1) by (auto simp: where_clause_def due_filter_def split: if_splits)
  then have "inc \<or> today \<le> cell_day (due_date (fst j))"
    using j(2) assms(3) selected_day_from by blast
  then show ?thesis
    by (simp add: j(3) derive_row_fields)
qed

lemma fetch_frame_text:
  assumes "j \<in> set (joined db)" and "where_clause inc today (today + days) j"
    and "due_date (fst j) = TextCell s"
    and "date_add today days = Inr (today + days)"
  shows "\<exists>s'. fetch_frame db today days inc = Inl (ParserError s')"
proof -
  have "select_columns j \<in> set (read_sql_query db inc today (today + days))"
    using assms(1,2) by (simp add: read_sql_query_def set_order_by_due)
  then have "TextCell s \<in> set (map r_due_date (read_sql_query db inc today (today + days)))"
    using assms(3) by (force simp: select_columns_fields)
  then obtain s' where "to_datetime (map r_due_date (read_sql_query db inc today (today + days)))
                          = Inl (ParserError s')"
    using to_datetime_text by blast
  then show ?thesis by (simp add: fetch_frame_def Let_def assms(4))
qed

lemma sql_le_text: "sql_le (TextCell s) d \<longleftrightarrow> s \<le> isoformat d"
  by (simp add: sql_le_def)

lemma sql_date_le_text: "sql_date_le (DateCell x) (TextCell t) \<longleftrightarrow> isoformat x \<le> t"
  by (simp add: sql_date_le_def)

lemmas ex_eval =
  fetch_frame_def date_add_def valid_date_def MAXORDINAL_def read_sql_query_def joined_def
  ex_db_def ex_loans_def ex_loans_bad_def ex_loan_def where_clause_def due_filter_def
  order_by_due_def to_datetime_def dates_of_def select_columns_def derive_row_def ex_row_def
  sql_le_date sql_ge_date sql_date_le_dates sql_le_stamp sql_ge_stamp sql_le_text
  sql_date_le_text

lemma map_fst_insort_key:
  "map fst (insort_key (\<lambda>j. k (fst j)) x xs) = insort_key k (fst x) (map fst xs)"
  by (induction xs) auto

lemma map_fst_sort_key:
  "map fst (sort_key (\<lambda>j. k (fst j)) xs) = sort_key k (map fst xs)"
  by (induction xs) (simp_all add: map_fst_insort_key)

lemma map_fst_filter:
  "map fst (filter (\<lambda>j. P (fst j)) xs) = filter P (map fst xs)"
  by (induction xs) auto

lemma joined_one_row_per_loan:
  assumes "\<forall>l \<in> set (loans db).
             (\<exists>c. filter (\<lambda>c. l_customer_id l = customer_id c) (customers db) = [c])
             \<and> (\<exists>b. filter (\<lambda>b. l_branch_id l = branch_id b) (branches db) = [b])"
  shows "map fst (joined db) = loans db"
proof -
  have "map fst (concat (map (\<lambda>l. concat (map (\<lambda>c. if l_customer_id l = customer_id c
          then concat (map (\<lambda>b. if l_branch_id l = branch_id b then [(l, c, b)] else []) bs)
          else []) cs)) ls)) = ls"
    if "\<forall>l \<in> set ls.
             (\<exists>c. filter (\<lambda>c. l_customer_id l = customer_id c) cs = [c])
             \<and> (\<exists>b. filter (\<lambda>b. l_branch_id l = branch_id b) bs = [b])" for ls cs bs
    using that
  proof (induction ls)
    case Nil
    then show ?case by simp
  next
    case (Cons l ls)
    obtain c b where c: "filter (\<lambda>c. l_customer_id l = customer_id c) cs = [c]"
      and b: "filter (\<lambda>b. l_branch_id l = branch_id b) bs = [b]"
      using Cons.prems by auto
    have inner: "concat (map (\<lambda>b. if l_branch_id l = branch_id b then [(l, c', b)] else []) bs)
                  = [(l, c', b)]" for c'
    proof -
      have "concat (map (\<lambda>b. if l_branch_id l = branch_id b then [(l, c', b)] else []) bs)
              = map (\<lambda>b. (l, c', b)) (filter (\<lambda>b. l_branch_id l = branch_id b) bs)"
        by (induction bs) auto
      then show ?thesis by (simp add: b)
    qed
    have outer: "concat (map (\<lambda>c. if l_customer_id l = customer_id c
          then concat (map (\<lambda>b. if l_branch_id l = branch_id b then [(l, c, b)] else []) bs)
          else []) cs) = [(l, c, b)]"
    proof -
      have "concat (map (\<lambda>c. if l_customer_id l = customer_id c then [(l, c, b)] else []) cs)
              = map (\<lambda>c. (l, c, b)) (filter (\<lambda>c. l_customer_id l = customer_id c) cs)"
        by (induction cs) auto
      then show ?thesis by (simp add: inner c cong: if_cong)
    qed
    show ?case using Cons by (simp add: outer)
  qed
  then show ?thesis using assms by (simp add: joined_def)
qed

lemma ex_frame_fetch:
  "fetch_frame (ex_db ex_loans) 738900 60 False
     = Inr [ex_row ''L5'' 0 ''Active'', ex_row ''L1'' 2 ''Active'', ex_row ''L4'' 50 ''Active'']"
  by (simp add: ex_eval)

subsection \<open>The summary sheet\<close>

lemma len_filter_partition:
  "len (filter (\<lambda>r. days_remaining r < 0) df) + len (filter (\<lambda>r. days_remaining r = 0) df)
   + len (filter (\<lambda>r. days_remaining r \<ge> 1 \<and> days_remaining r \<le> 3) df)
   + len (filter (\<lambda>r. days_remaining r \<ge> 4 \<and> days_remaining r \<le> 7) df)
   = len (filter (\<lambda>r. days_remaining r \<le> 7) df)"
  by (induction df) (auto simp: len_def)

lemma summary_lookup:
  "map_of (summary_data df today) ''Already Overdue''
     = Some (PInt (len (filter (\<lambda>r. days_remaining r < 0) df)))"
  "map_of (summary_data df today) ''Due Today''
     = Some (PInt (len (filter (\<lambda>r. days_remaining r = 0) df)))"
  "map_of (summary_data df today) ''Due in 1-3 Days''
     = Some (PInt (len (filter (\<lambda>r. days_remaining r \<ge> 1 \<and> days_remaining r \<le> 3) df)))"
  "map_of (summary_data df today) ''Due in 4-7 Days''
     = Some (PInt (len (filter (\<lambda>r. days_remaining r \<ge> 4 \<and> days_remaining r \<le> 7) df)))"
  "map_of (summary_data df today) ''Overdue Loans''
     = Some (PInt (len (filter (\<lambda>r. status r = ''Overdue'') df)))"
  "map_of (summary_data df today) ''Overdue Outstanding (KES)''
     = Some (PFmt (sum_list (map outstanding (filter (\<lambda>r. status r = ''Overdue'') df))))"
  "map_of (summary_data df today) ''Reporting Period'' = Some (PStr ''Next 7 Days + Overdue'')"
  by (simp_all add: summary_data_def Let_def)

lemma wb_rows_nth:
  "i < length df \<Longrightarrow> wb_rows (build_workbook df c t) ! i = data_row (5 + i) (df ! i)"
  by (simp add: build_workbook_def)

text \<open>
  C4. The four counts of the section DUE THIS WEEK are the numbers of rows with days
  remaining below 0, equal to 0, from 1 to 3 and from 4 to 7; they add up to the number of
  rows with at most 7 days remaining. A row with more than 7 days remaining is counted by
  none of the four, and it is still a row of the detail sheet, which has one row per record.
\<close>

theorem summary_buckets_partition:
  "map_of (summary_data df today) ''Already Overdue''
     = Some (PInt (len (filter (\<lambda>r. days_remaining r < 0) df)))
   \<and> map_of (summary_data df today) ''Due Today''
     = Some (PInt (len (filter (\<lambda>r. days_remaining r = 0) df)))
   \<and> map_of (summary_data df today) ''Due in 1-3 Days''
     = Some (PInt (len (filter (\<lambda>r. days_remaining r \<ge> 1 \<and> days_remaining r \<le> 3) df)))
   \<and> map_of (summary_data df today) ''Due in 4-7 Days''
     = Some (PInt (len (filter (\<lambda>r. days_remaining r \<ge> 4 \<and> days_remaining r \<le> 7) df)))
   \<and> len (filter (\<lambda>r. days_remaining r < 0) df)
       + len (filter (\<lambda>r. days_remaining r = 0) df)
       + len (filter (\<lambda>r. days_remaining r \<ge> 1 \<and> days_remaining r \<le> 3) df)
       + len (filter (\<lambda>r. days_remaining r \<ge> 4 \<and> days_remaining r \<le> 7) df)
     = len (filter (\<lambda>r. days_remaining r \<le> 7) df)
   \<and> length (wb_rows (build_workbook df company today)) = length df
   \<and> (\<forall>i < length df. 7 < days_remaining (df ! i) \<longrightarrow>
         df ! i \<notin> set (filter (\<lambda>r. days_remaining r < 0) df)
         \<and> df ! i \<notin> set (filter (\<lambda>r. days_remaining r = 0) df)
         \<and> df ! i \<notin> set (filter (\<lambda>r. days_remaining r \<ge> 1 \<and> days_remaining r \<le> 3) df)
         \<and> df ! i \<notin> set (filter (\<lambda>r. days_remaining r \<ge> 4 \<and> days_remaining r \<le> 7) df)
         \<and> wb_rows (build_workbook df company today) ! i = data_row (5 + i) (df ! i))"
proof -
  have rows: "length (wb_rows (build_workbook df company today)) = length df"
    by (simp add: build_workbook_def)
  have far: "\<forall>i < length df. 7 < days_remaining (df ! i) \<longrightarrow>
         df ! i \<notin> set (filter (\<lambda>r. days_remaining r < 0) df)
         \<and> df ! i \<notin> set (filter (\<lambda>r. days_remaining r = 0) df)
         \<and> df ! i \<notin> set (filter (\<lambda>r. days_remaining r \<ge> 1 \<and> days_remaining r \<le> 3) df)
         \<and> df ! i \<notin> set (filter (\<lambda>r. days_remaining r \<ge> 4 \<and> days_remaining r \<le> 7) df)
         \<and> wb_rows (build_workbook df company today) ! i = data_row (5 + i) (df ! i)"
    by (simp add: wb_rows_nth)
  show ?thesis
    using summary_lookup(1-4) [of df today] len_filter_partition [of df] rows far
    by blast
qed

theorem summary_buckets_partition_witness:
  "4 < length ex_frame \<and> 7 < days_remaining (ex_frame ! 4)
   \<and> map_of (summary_data ex_frame 738900) ''Already Overdue'' = Some (PInt 1)
   \<and> map_of (summary_data ex_frame 738900) ''Due Today'' = Some (PInt 1)
   \<and> map_of (summary_data ex_frame 738900) ''Due in 1-3 Days'' = Some (PInt 1)
   \<and> map_of (summary_data ex_frame 738900) ''Due in 4-7 Days'' = Some (PInt 1)
   \<and> len (filter (\<lambda>r. days_remaining r \<le> 7) ex_frame) = 4
   \<and> length (wb_rows (build_workbook ex_frame ''Sacco'' 738900)) = 5
   \<and> wb_rows (build_workbook ex_frame ''Sacco'' 738900) ! 4 = data_row 9 (ex_frame ! 4)"
  using summary_buckets_partition [of ex_frame 738900 "''Sacco''"]
  by (simp add: ex_frame_def ex_row_def len_def)

subsection \<open>Overdue styling and the overdue figures\<close>

lemma row_fill_overdue_iff:
  "row_fill k r = CLR_OVERDUE_BG \<longleftrightarrow> status r = ''Overdue'' \<or> days_remaining r < 0"
  by (simp add: row_fill_def CLR_OVERDUE_BG_def CLR_ALT_ROW_def)

lemma email_tr_background_iff:
  "tr_background (email_tr i r) = ''#ffe0e0'' \<longleftrightarrow> status r = ''Overdue''"
  by (simp add: email_tr_def)

lemma data_row_fill:
  "\<forall>c \<in> set (data_row k r). c_fill c = row_fill k r"
  by (simp add: data_row_def df_columns_def row_values_def data_cell_def)

text \<open>
  C2. In the workbook a data row has the overdue fill exactly when its status is Overdue
  or its days remaining are negative. In the email table the background of a row is the
  overdue colour exactly when its status is Overdue (lemma \<open>email_tr_background_iff\<close>):
  the row of status Active with \<open>-2\<close> days remaining has the overdue fill in the workbook
  and the plain background \<^verbatim>\<open>#ffffff\<close> in the email table, while the row of status Overdue
  with 5 days remaining has the overdue colour in both.
\<close>

theorem email_row_not_flagged_by_days:
  "days_remaining (ex_row ''L2'' (- 2) ''Active'') = - 2
   \<and> status (ex_row ''L2'' (- 2) ''Active'') = ''Active''
   \<and> row_fill 5 (ex_row ''L2'' (- 2) ''Active'') = CLR_OVERDUE_BG
   \<and> tr_background (email_tr 0 (ex_row ''L2'' (- 2) ''Active'')) = ''#ffffff''
   \<and> row_fill 5 (ex_row ''L7'' 5 ''Overdue'') = CLR_OVERDUE_BG
   \<and> tr_background (email_tr 0 (ex_row ''L7'' 5 ''Overdue'')) = ''#ffe0e0''"
  by (simp add: ex_row_def row_fill_def email_tr_def)

text \<open>
  C9. The entries Overdue Loans and Overdue Outstanding of the summary sheet, and the
  figures of the same names in the email summary, are the count and the sum of the
  outstanding balances of the rows whose status is the text Overdue. The entry Already
  Overdue is the count of the rows with negative days remaining. So a row with negative
  days remaining and another status gets the overdue fill in the detail sheet, adds one to
  Already Overdue and changes none of the two overdue figures.
\<close>

theorem overdue_summary_by_status:
  "map_of (summary_data df today) ''Overdue Loans''
     = Some (PInt (len (filter (\<lambda>r. status r = ''Overdue'') df)))
   \<and> map_of (summary_data df today) ''Overdue Outstanding (KES)''
     = Some (PFmt (sum_list (map outstanding (filter (\<lambda>r. status r = ''Overdue'') df))))
   \<and> eb_overdue (email_body_of df company today')
     = len (filter (\<lambda>r. status r = ''Overdue'') df)
   \<and> eb_overdue_outstanding (email_body_of df company today')
     = sum_list (map outstanding (filter (\<lambda>r. status r = ''Overdue'') df))
   \<and> map_of (summary_data df today) ''Already Overdue''
     = Some (PInt (len (filter (\<lambda>r. days_remaining r < 0) df)))
   \<and> (\<forall>r k. status r \<noteq> ''Overdue'' \<and> days_remaining r < 0 \<longrightarrow>
         row_fill k r = CLR_OVERDUE_BG
         \<and> map_of (summary_data (df @ [r]) today) ''Overdue Loans''
             = map_of (summary_data df today) ''Overdue Loans''
         \<and> map_of (summary_data (df @ [r]) today) ''Overdue Outstanding (KES)''
             = map_of (summary_data df today) ''Overdue Outstanding (KES)''
         \<and> eb_overdue (email_body_of (df @ [r]) company today')
             = eb_overdue (email_body_of df company today')
         \<and> eb_overdue_outstanding (email_body_of (df @ [r]) company today')
             = eb_overdue_outstanding (email_body_of df company today')
         \<and> map_of (summary_data (df @ [r]) today) ''Already Overdue''
             = Some (PInt (len (filter (\<lambda>r. days_remaining r < 0) df) + 1)))"
proof -
  have body: "eb_overdue (email_body_of xs company today')
                = len (filter (\<lambda>r. status r = ''Overdue'') xs)
              \<and> eb_overdue_outstanding (email_body_of xs company today')
                = sum_list (map outstanding (filter (\<lambda>r. status r = ''Overdue'') xs))" for xs
    by (simp add: email_body_of_def)
  have grow: "status r \<noteq> ''Overdue'' \<and> days_remaining r < 0 \<longrightarrow>
         row_fill k r = CLR_OVERDUE_BG
         \<and> map_of (summary_data (df @ [r]) today) ''Overdue Loans''
             = map_of (summary_data df today) ''Overdue Loans''
         \<and> map_of (summary_data (df @ [r]) today) ''Overdue Outstanding (KES)''
             = map_of (summary_data df today) ''Overdue Outstanding (KES)''
         \<and> eb_overdue (email_body_of (df @ [r]) company today')
             = eb_overdue (email_body_of df company today')
         \<and> eb_overdue_outstanding (email_body_of (df @ [r]) company today')
             = eb_overdue_outstanding (email_body_of df company today')
         \<and> map_of (summary_data (df @ [r]) today) ''Already Overdue''
             = Some (PInt (len (filter (\<lambda>r. days_remaining r < 0) df) + 1))" for r k
    by (simp add: summary_lookup body row_fill_overdue_iff len_def)
  show ?thesis
    using summary_lookup(1,5,6) [of df today] body [of df] grow by blast
qed

theorem overdue_summary_by_status_witness:
  "status (ex_row ''L2'' (- 2) ''Active'') \<noteq> ''Overdue''
   \<and> days_remaining (ex_row ''L2'' (- 2) ''Active'') < 0
   \<and> row_fill 5 (ex_row ''L2'' (- 2) ''Active'') = CLR_OVERDUE_BG
   \<and> map_of (summary_data ([ex_row ''L7'' 5 ''Overdue''] @ [ex_row ''L2'' (- 2) ''Active'']) 738900)
         ''Overdue Loans'' = Some (PInt 1)
   \<and> map_of (summary_data ([ex_row ''L7'' 5 ''Overdue''] @ [ex_row ''L2'' (- 2) ''Active'']) 738900)
         ''Overdue Outstanding (KES)'' = Some (PFmt 400)
   \<and> map_of (summary_data ([ex_row ''L7'' 5 ''Overdue''] @ [ex_row ''L2'' (- 2) ''Active'']) 738900)
         ''Already Overdue'' = Some (PInt 1)
   \<and> eb_overdue (email_body_of ([ex_row ''L7'' 5 ''Overdue''] @ [ex_row ''L2'' (- 2) ''Active''])
         ''Sacco'' 738900) = 1"
  using overdue_summary_by_status
    [of "[ex_row ''L7'' 5 ''Overdue'']" 738900 "''Sacco''" 738900]
  by (simp add: ex_row_def len_def summary_lookup email_body_of_def row_fill_def)

subsection \<open>Columns\<close>

lemma data_row_values:
  "map c_value (data_row k r) =
     [PStr (customer_name r), PStr (loan_ident r), PFloat (amount r), PFloat (outstanding r),
      PStr (isoformat (due r)), PInt (days_remaining r), PStr (phone r),
      PStr (email_address r), PStr (officer_branch r), PStr (status r)]"
  by (simp add: data_row_def df_columns_def row_values_def data_cell_def)

lemma eb_rows_nth:
  "i < length df \<Longrightarrow> eb_rows (email_body_of df c t) ! i = email_tr i (df ! i)"
  by (simp add: email_body_of_def)

text \<open>
  C6, as claimed, fails for the email table: it has nine columns, none of them Email.
\<close>

theorem email_table_omits_email_column:
  "eb_header (email_body_of ex_frame ''Sacco'' 738900)
     \<noteq> [''Customer Name'', ''Loan ID'', ''Amount Borrowed'', ''Outstanding Balance'',
         ''Due Date'', ''Days Remaining'', ''Phone Number'', ''Email'',
         ''Loan Officer / Branch'', ''Loan Status'']
   \<and> length (eb_header (email_body_of ex_frame ''Sacco'' 738900)) = 9
   \<and> ''Email'' \<notin> set (eb_header (email_body_of ex_frame ''Sacco'' 738900))
   \<and> length (tr_cells (eb_rows (email_body_of ex_frame ''Sacco'' 738900) ! 0)) = 9"
  by (simp add: email_body_of_def email_header_def ex_frame_def email_tr_def)

text \<open>
  C6, amended. The header row and every data row of the workbook have the ten columns in
  the canonical order. The email table has nine columns, in the same relative order: it
  has no Email column, and it heads Phone Number as Phone and Loan Status as Status.
\<close>

theorem report_columns_order:
  "wb_header (build_workbook df company today)
     = [''Customer Name'', ''Loan ID'', ''Amount Borrowed'', ''Outstanding Balance'',
        ''Due Date'', ''Days Remaining'', ''Phone Number'', ''Email'',
        ''Loan Officer / Branch'', ''Loan Status'']
   \<and> (\<forall>i < length df.
         map c_value (wb_rows (build_workbook df company today) ! i)
           = [PStr (customer_name (df ! i)), PStr (loan_ident (df ! i)), PFloat (amount (df ! i)),
              PFloat (outstanding (df ! i)), PStr (isoformat (due (df ! i))),
              PInt (days_remaining (df ! i)), PStr (phone (df ! i)),
              PStr (email_address (df ! i)), PStr (officer_branch (df ! i)),
              PStr (status (df ! i))])
   \<and> eb_header (email_body_of df company today')
     = [''Customer Name'', ''Loan ID'', ''Amount Borrowed'', ''Outstanding Balance'',
        ''Due Date'', ''Days Remaining'', ''Phone'', ''Loan Officer / Branch'', ''Status'']
   \<and> (\<forall>i < length df.
         tr_cells (eb_rows (email_body_of df company today') ! i)
           = [Plain (customer_name (df ! i)), Plain (loan_ident (df ! i)), Kes (amount (df ! i)),
              Kes (outstanding (df ! i)), Plain (isoformat (due (df ! i))),
              days_display (days_remaining (df ! i)), Plain (phone (df ! i)),
              Plain (officer_branch (df ! i)), Plain (status (df ! i))])"
proof -
  have h: "wb_header (build_workbook df company today)
     = [''Customer Name'', ''Loan ID'', ''Amount Borrowed'', ''Outstanding Balance'',
        ''Due Date'', ''Days Remaining'', ''Phone Number'', ''Email'',
        ''Loan Officer / Branch'', ''Loan Status'']"
    by (simp add: build_workbook_def df_columns_def)
  have e: "eb_header (email_body_of df company today')
     = [''Customer Name'', ''Loan ID'', ''Amount Borrowed'', ''Outstanding Balance'',
        ''Due Date'', ''Days Remaining'', ''Phone'', ''Loan Officer / Branch'', ''Status'']"
    by (simp add: email_body_of_def email_header_def)
  have r: "\<forall>i < length df.
         map c_value (wb_rows (build_workbook df company today) ! i)
           = [PStr (customer_name (df ! i)), PStr (loan_ident (df ! i)), PFloat (amount (df ! i)),
              PFloat (outstanding (df ! i)), PStr (isoformat (due (df ! i))),
              PInt (days_remaining (df ! i)), PStr (phone (df ! i)),
              PStr (email_address (df ! i)), PStr (officer_branch (df ! i)),
              PStr (status (df ! i))]"
    by (simp add: wb_rows_nth data_row_values)
  have t: "\<forall>i < length df.
         tr_cells (eb_rows (email_body_of df company today') ! i)
           = [Plain (customer_name (df ! i)), Plain (loan_ident (df ! i)), Kes (amount (df ! i)),
              Kes (outstanding (df ! i)), Plain (isoformat (due (df ! i))),
              days_display (days_remaining (df ! i)), Plain (phone (df ! i)),
              Plain (officer_branch (df ! i)), Plain (status (df ! i))]"
    by (simp add: eb_rows_nth email_tr_def)
  show ?thesis using h e r t by blast
qed

theorem report_columns_order_witness:
  "0 < length ex_frame
   \<and> map c_value (wb_rows (build_workbook ex_frame ''Sacco'' 738900) ! 0)
       = [PStr ''Ann Wanjiru'', PStr ''L2'', PFloat 1000, PFloat 400, PStr (isoformat 738898),
          PInt (- 2), PStr ''0700000001'', PStr ''ann@example.org'', PStr ''Omar / Thika'',
          PStr ''Active'']
   \<and> tr_cells (eb_rows (email_body_of ex_frame ''Sacco'' 738900) ! 0)
       = [Plain ''Ann Wanjiru'', Plain ''L2'', Kes 1000, Kes 400, Plain (isoformat 738898),
          days_display (- 2), Plain ''0700000001'', Plain ''Omar / Thika'', Plain ''Active'']"
  using report_columns_order [of ex_frame "''Sacco''" 738900 738900]
  by (simp add: ex_frame_def ex_row_def)

subsection \<open>The report file and its subtitle\<close>

lemma gen_path: "fst (generate_excel_report df company w) = report_filename (clock w (clock_reads w))"
  by (simp add: generate_excel_report_def date_today_def Let_def)

lemma gen_files:
  "files (snd (generate_excel_report df company w))
     = (files w)(report_filename (clock w (clock_reads w))
          \<mapsto> build_workbook df company (clock w (clock_reads w)))"
  by (simp add: generate_excel_report_def date_today_def Let_def log_info_def)

lemma gen_clock:
  "clock (snd (generate_excel_report df company w)) = clock w"
  by (simp add: generate_excel_report_def date_today_def Let_def log_info_def)

lemma filename_20240115: "report_filename 738900 = ''reports/Loans_Due_Report_20240115.xlsx''"
  by code_simp

lemma subtitle_20240115:
  "subtitle_text [a, b, c] 738900
     = ''Report Generated: Monday, 15 January 2024  |  Loans Due: 15 Jan '' @ EN_DASH
       @ '' 22 Jan 2024  |  Total Records: 3''"
  by (simp add: subtitle_text_def len_def) code_simp

text \<open>
  C10. Whatever window and flag selected the frame, the workbook that
  \<^verbatim>\<open>generate_excel_report\<close> writes states the range from its report date to 7 days after
  it in the subtitle, and its summary sheet gives the Reporting Period as the fixed text
  \<^verbatim>\<open>Next 7 Days + Overdue\<close>.
\<close>

theorem subtitle_range_fixed:
  assumes "fetch_frame db today0 days_ahead inc = Inr df"
  shows "files (snd (generate_excel_report df company w)) (fst (generate_excel_report df company w))
           = Some (build_workbook df company (clock w (clock_reads w)))
         \<and> wb_subtitle (build_workbook df company today)
           = ''Report Generated: '' @ strftime ''%A, %d %B %Y'' today @ ''  |  ''
             @ ''Loans Due: '' @ strftime ''%d %b'' today @ '' '' @ EN_DASH @ '' ''
             @ strftime ''%d %b %Y'' (today + 7) @ ''  |  ''
             @ ''Total Records: '' @ str_int (len df)
         \<and> map_of (wb_summary (build_workbook df company today)) ''Reporting Period''
           = Some (PStr ''Next 7 Days + Overdue'')"
  by (simp add: gen_path gen_files build_workbook_def subtitle_text_def summary_lookup)

theorem subtitle_range_fixed_witness:
  "fetch_frame (ex_db ex_loans) 738900 60 False
     = Inr [ex_row ''L5'' 0 ''Active'', ex_row ''L1'' 2 ''Active'', ex_row ''L4'' 50 ''Active'']
   \<and> wb_subtitle (build_workbook
         [ex_row ''L5'' 0 ''Active'', ex_row ''L1'' 2 ''Active'', ex_row ''L4'' 50 ''Active'']
         ''Sacco'' 738900)
     = ''Report Generated: Monday, 15 January 2024  |  Loans Due: 15 Jan '' @ EN_DASH
       @ '' 22 Jan 2024  |  Total Records: 3''
   \<and> map_of (wb_summary (build_workbook
         [ex_row ''L5'' 0 ''Active'', ex_row ''L1'' 2 ''Active'', ex_row ''L4'' 50 ''Active'']
         ''Sacco'' 738900)) ''Reporting Period''
     = Some (PStr ''Next 7 Days + Overdue'')"
  using subtitle_range_fixed [OF ex_frame_fetch, of "''Sacco''" "ex_world (\<lambda>k. 738900) None" 738900]
    ex_frame_fetch subtitle_20240115
  by (simp add: build_workbook_def)

lemma digit_char_digit: "digit_char k \<in> set ''0123456789''"
  unfolding digit_char_def by (rule nth_mem) simp

lemma str_nat_digits: "set (str_nat n) \<subseteq> set ''0123456789''"
proof (induction n rule: str_nat.induct)
  case (1 n)
  show ?case
  proof (cases "n < 10")
    case True
    then show ?thesis using digit_char_digit [of n] by (simp add: str_nat_digit del: str_nat.simps)
  next
    case False
    then have "set (str_nat (n div 10)) \<subseteq> set ''0123456789''" using 1 by simp
    then show ?thesis
      using False digit_char_digit [of n] by (simp add: str_nat_snoc del: str_nat.simps)
  qed
qed

lemma zpad_digits: "0 \<le> i \<Longrightarrow> set (zpad w i) \<subseteq> set ''0123456789''"
  using str_nat_digits [of "nat i"]
  by (auto simp: zpad_def Let_def str_int_def simp del: str_nat.simps)

lemma strftime_Ymd_digits:
  assumes "valid_date d"
  shows "set (strftime ''%Y%m%d'' d) \<subseteq> set ''0123456789''"
proof -
  have "0 \<le> year_of d" using year_of_range [OF assms] by simp
  moreover have "0 \<le> month_of d" using month_of_range [of d] by simp
  moreover have "0 \<le> day_of d" using day_of_range [of d] by simp
  ultimately show ?thesis
    unfolding strftime_Ymd set_append by (intro Un_least zpad_digits)
qed

lemma report_filename_inj:
  assumes "valid_date d1" "valid_date d2" "report_filename d1 = report_filename d2"
  shows "d1 = d2"
proof -
  have "strftime ''%Y%m%d'' d1 = strftime ''%Y%m%d'' d2"
    using assms(3) by (simp add: report_filename_def del: strftime.simps)
  moreover have "1 \<le> d1" "1 \<le> d2" using assms(1,2) by (simp_all add: valid_date_def)
  ultimately show ?thesis by (intro strftime_Ymd_inj)
qed

text \<open>
  C8, as claimed, fails: a second run on the same calendar date writes to the path of the
  first, and its workbook replaces the first one.
\<close>

theorem same_day_runs_share_path:
  "fst (generate_excel_report ex_frame ''Sacco'' (ex_world (\<lambda>k. 738900) None))
     = ''reports/Loans_Due_Report_20240115.xlsx''
   \<and> fst (generate_excel_report [ex_row ''L9'' 1 ''Active''] ''Sacco''
           (snd (generate_excel_report ex_frame ''Sacco'' (ex_world (\<lambda>k. 738900) None))))
     = ''reports/Loans_Due_Report_20240115.xlsx''
   \<and> files (snd (generate_excel_report [ex_row ''L9'' 1 ''Active''] ''Sacco''
           (snd (generate_excel_report ex_frame ''Sacco'' (ex_world (\<lambda>k. 738900) None)))))
        ''reports/Loans_Due_Report_20240115.xlsx''
     = Some (build_workbook [ex_row ''L9'' 1 ''Active''] ''Sacco'' 738900)"
  by (simp add: gen_path gen_files gen_clock ex_world_def filename_20240115)

text \<open>
  C8, amended. The path of the report is the fixed prefix, the stamp of the date that
  \<^verbatim>\<open>generate_excel_report\<close> reads, and the extension; for a year of four digits the stamp
  is the year in four digits, the month in two and the day in two, eight digits in all. The
  path is determined by that date alone: two runs write to the same path exactly when they
  read the same date, so runs on different dates never collide and runs on the same date
  always do. The run stores its workbook at the path, whatever was stored there before.
\<close>

theorem artifact_path_by_date:
  assumes "today = clock w (clock_reads w)" "valid_date today"
    and "today' = clock w' (clock_reads w')" "valid_date today'"
  shows "fst (generate_excel_report df company w)
           = ''reports/Loans_Due_Report_'' @ strftime ''%Y%m%d'' today @ ''.xlsx''
         \<and> (1000 \<le> year_of today \<longrightarrow>
              strftime ''%Y%m%d'' today
                = zpad 4 (year_of today) @ zpad 2 (month_of today) @ zpad 2 (day_of today)
              \<and> length (zpad 4 (year_of today)) = 4 \<and> length (zpad 2 (month_of today)) = 2
              \<and> length (zpad 2 (day_of today)) = 2
              \<and> set (strftime ''%Y%m%d'' today) \<subseteq> set ''0123456789'')
         \<and> (fst (generate_excel_report df company w) = fst (generate_excel_report df' company' w')
              \<longleftrightarrow> today = today')
         \<and> files (snd (generate_excel_report df company w)) (fst (generate_excel_report df company w))
             = Some (build_workbook df company today)"
proof -
  have p: "fst (generate_excel_report df company w)
             = ''reports/Loans_Due_Report_'' @ strftime ''%Y%m%d'' today @ ''.xlsx''"
    unfolding gen_path assms(1) [symmetric] by (simp add: report_filename_def del: strftime.simps)
  have e: "fst (generate_excel_report df company w) = fst (generate_excel_report df' company' w')
             \<longleftrightarrow> today = today'"
    unfolding gen_path assms(1) [symmetric] assms(3) [symmetric]
    using report_filename_inj [OF assms(2,4)] by blast
  have f: "files (snd (generate_excel_report df company w)) (fst (generate_excel_report df company w))
             = Some (build_workbook df company today)"
    by (simp add: gen_path gen_files assms(1))
  have l: "length (zpad 4 (year_of today)) = 4" "length (zpad 2 (month_of today)) = 2"
    "length (zpad 2 (day_of today)) = 2"
    using assms(2) by (simp_all only: length_zpad_year length_zpad_month length_zpad_day)
  show ?thesis
    using p e f l strftime_Ymd [of today] strftime_Ymd_digits [OF assms(2)] by blast
qed

theorem artifact_path_by_date_witness:
  "valid_date 738900 \<and> valid_date 738901
   \<and> fst (generate_excel_report ex_frame ''Sacco'' (ex_world (\<lambda>k. 738900) None))
       = ''reports/Loans_Due_Report_20240115.xlsx''
   \<and> 1000 \<le> year_of 738900
   \<and> length (strftime ''%Y%m%d'' 738900) = 8
   \<and> fst (generate_excel_report ex_frame ''Sacco'' (ex_world (\<lambda>k. 738900) None))
       \<noteq> fst (generate_excel_report ex_frame ''Sacco'' (ex_world (\<lambda>k. 738901) None))
   \<and> files (snd (generate_excel_report ex_frame ''Sacco'' (ex_world (\<lambda>k. 738900) None)))
        ''reports/Loans_Due_Report_20240115.xlsx''
       = Some (build_workbook ex_frame ''Sacco'' 738900)"
proof -
  have v: "valid_date 738900" "valid_date 738901"
    by (simp_all add: valid_date_def MAXORDINAL_def)
  have c: "738900 = clock (ex_world (\<lambda>k. 738900) None) (clock_reads (ex_world (\<lambda>k. 738900) None))"
    "738901 = clock (ex_world (\<lambda>k. 738901) None) (clock_reads (ex_world (\<lambda>k. 738901) None))"
    by (simp_all add: ex_world_def)
  have p: "fst (generate_excel_report ex_frame ''Sacco'' (ex_world (\<lambda>k. 738900) None))
             = ''reports/Loans_Due_Report_20240115.xlsx''"
    by (simp add: gen_path ex_world_def filename_20240115)
  have y: "1000 \<le> year_of 738900"
    by code_simp
  have "(fst (generate_excel_report ex_frame ''Sacco'' (ex_world (\<lambda>k. 738900) None))
           = fst (generate_excel_report ex_frame ''Sacco'' (ex_world (\<lambda>k. 738901) None)))
          = ((738900::int) = 738901)"
    and "strftime ''%Y%m%d'' 738900
           = zpad 4 (year_of 738900) @ zpad 2 (month_of 738900) @ zpad 2 (day_of 738900)
         \<and> length (zpad 4 (year_of 738900)) = 4 \<and> length (zpad 2 (month_of 738900)) = 2
         \<and> length (zpad 2 (day_of 738900)) = 2"
    and "files (snd (generate_excel_report ex_frame ''Sacco'' (ex_world (\<lambda>k. 738900) None)))
           (fst (generate_excel_report ex_frame ''Sacco'' (ex_world (\<lambda>k. 738900) None)))
          = Some (build_workbook ex_frame ''Sacco'' 738900)"
    using artifact_path_by_date [OF c(1) v(1) c(2) v(2), of ex_frame "''Sacco''" ex_frame "''Sacco''"]
      y
    by blast+
  then show ?thesis using v p y by (simp del: strftime.simps)
qed

subsection \<open>The stages of a run\<close>

lemma main_fetch_failed:
  assumes "fetch_frame db (clock w (clock_reads w)) (fallback 7 (days_lookahead cfg))
             (fallback True (include_overdue cfg)) = Inl e"
  shows "fst (main cfg db w) = Inl e" and "files (snd (main cfg db w)) = files w"
    and "sent (snd (main cfg db w)) = sent w"
    and "log (snd (main cfg db w))
           = log (banner (''  LOAN MONITORING SYSTEM '' @ EM_DASH @ '' Starting Run'') w)"
  using assms
  by (simp_all add: main_def fetch_due_loans_def date_today_def banner_def log_info_def Let_def)

lemma send_email_files: "files (snd (send_email cfg p df w)) = files w"
  by (simp add: send_email_def build_email_body_def date_today_def log_info_def Let_def
      split: option.splits)

lemma send_email_failed_sent:
  "fst (send_email cfg p df w) = Inl e \<Longrightarrow> sent (snd (send_email cfg p df w)) = sent w"
  by (simp add: send_email_def build_email_body_def date_today_def log_info_def Let_def
      split: option.splits)

lemma send_email_smtp_fault:
  assumes "sender_email cfg \<noteq> None" "sender_password cfg \<noteq> None" "recipient_email cfg \<noteq> None"
    and "files w p \<noteq> None" and "smtp_fault w = Some f"
  shows "fst (send_email cfg p df w) = Inl (SMTPException f)"
  using assms
  by (auto simp add: send_email_def build_email_body_def date_today_def log_info_def Let_def
      split: option.splits)

lemma send_email_delivered:
  assumes "sender_email cfg = Some sender" "sender_password cfg = Some pw"
    "recipient_email cfg = Some rcpt"
    and "files w p = Some wb" and "smtp_fault w = None"
  shows "fst (send_email cfg p df w) = Inr ()"
    and "sent (snd (send_email cfg p df w)) = sent w @
           [\<lparr> m_subject = fallback ''Loan Due Date Alert'' (email_subject cfg) @ '' '' @ EN_DASH
                            @ '' '' @ strftime ''%d %b %Y'' (clock w (clock_reads w)),
              m_from = fallback ''Loan Management System'' (company_name cfg) @ '' <'' @ sender @ ''>'',
              m_to = fallback ''Credit and Loans Department'' (recipient_name cfg) @ '' <'' @ rcpt @ ''>'',
              m_html = email_body_of df (fallback ''Loan Management System'' (company_name cfg))
                         (clock w (Suc (clock_reads w))),
              m_attachment_name = basename p,
              m_attachment = wb \<rparr>]"
    and "clock_reads (snd (send_email cfg p df w)) = Suc (Suc (clock_reads w))"
  using assms
  by (simp_all add: send_email_def build_email_body_def date_today_def log_info_def Let_def)

lemma main_rendered:
  fixes cfg db w df
  defines "w1 \<equiv> snd (fetch_due_loans db (fallback 7 (days_lookahead cfg))
                         (fallback True (include_overdue cfg))
                         (banner (''  LOAN MONITORING SYSTEM '' @ EM_DASH @ '' Starting Run'') w))"
  defines "w2 \<equiv> snd (generate_excel_report df
                         (fallback ''Loan Management System'' (company_name cfg)) w1)"
  defines "p \<equiv> report_filename (clock w (Suc (clock_reads w)))"
  assumes "fetch_frame db (clock w (clock_reads w)) (fallback 7 (days_lookahead cfg))
             (fallback True (include_overdue cfg)) = Inr df"
    and "df \<noteq> []"
  shows "main cfg db w =
           (case send_email cfg p df w2 of
              (Inl e, w3) \<Rightarrow>
                (Inl e,
                 log_info (''Report saved locally at: '' @ p)
                   (log_error (CROSS_MARK @ ''  Failed to send email: '' @ str_error e) w3))
            | (Inr u, w3) \<Rightarrow>
                (Inr (),
                 banner ''  Run complete.''
                   (if \<not> fallback True (save_local_copy cfg) \<and> files w3 p \<noteq> None
                    then log_info ''Local report copy removed (save_local_copy=false).''
                           (w3\<lparr>files := (files w3)(p := None)\<rparr>)
                    else w3)))"
    and "files w2 = (files w)(p \<mapsto>
           build_workbook df (fallback ''Loan Management System'' (company_name cfg))
             (clock w (Suc (clock_reads w))))"
    and "clock w2 = clock w" and "clock_reads w2 = Suc (Suc (clock_reads w))"
    and "smtp_fault w2 = smtp_fault w" and "sent w2 = sent w"
  using assms(4,5) unfolding w1_def w2_def p_def
  by (auto simp add: main_def fetch_due_loans_def generate_excel_report_def date_today_def
      log_info_def banner_def Let_def split: prod.splits sum.splits)

subsection \<open>Evaluations of the examples\<close>

lemma ex_fetch_7:
  "fetch_frame (ex_db ex_loans) 738900 7 True
     = Inr [ex_row ''L2'' (- 10) ''Overdue'', ex_row ''L5'' 0 ''Active'', ex_row ''L1'' 2 ''Active'']"
  by (simp add: ex_eval)

lemma iso_20250104: "isoformat 739255 = ''2025-01-04''"
  by code_simp

lemma iso_20241230: "isoformat 739250 = ''2024-12-30''"
  by code_simp

lemma ex_fetch_bad:
  "fetch_frame (ex_db ex_loans_bad) 739248 7 True = Inl (ParserError ''2024-13-45'')"
  by (simp add: ex_eval iso_20250104 iso_20241230 less_eq_char_def less_char_def)

lemma ex_fetch_good:
  "fetch_frame (ex_db [ex_loan ''L1'' (DateCell 739250) ''Active'']) 739248 7 True
     = Inr [\<lparr> customer_name = ''Ann Wanjiru'', loan_ident = ''L1'', amount = 1000,
              outstanding = 400, due = 739250, days_remaining = 2, phone = ''0700000001'',
              email_address = ''ann@example.org'', officer_branch = ''Omar / Thika'',
              status = ''Active'' \<rparr>]"
  by (simp add: ex_eval)

subsection \<open>The selector\<close>

lemma fetch_due_loans_fst:
  "fst (fetch_due_loans db days inc w) = fetch_frame db (clock w (clock_reads w)) days inc"
  by (simp add: fetch_due_loans_def date_today_def split: sum.splits)

lemma ex_fetch_overflow:
  "fetch_frame (ex_db ex_loans) 738900 3000000 True = Inl OverflowError"
  by (simp add: fetch_frame_def date_add_def valid_date_def MAXORDINAL_def)

lemma ex_fetch_stamp_7:
  "fetch_frame (ex_db [ex_loan ''L1'' (StampCell 738907 ''00:00:00'') ''Active'']) 738900 7 True
     = Inr []"
  by (simp add: ex_eval)

lemma ex_fetch_stamp_8:
  "fetch_frame (ex_db [ex_loan ''L1'' (StampCell 738907 ''00:00:00'') ''Active'']) 738900 8 True
     = Inr [ex_row ''L1'' 7 ''Active'']"
  by (simp add: ex_eval)

lemma ex_fetch_date_7:
  "fetch_frame (ex_db [ex_loan ''L1'' (DateCell 738907) ''Active'']) 738900 7 True
     = Inr [ex_row ''L1'' 7 ''Active'']"
  by (simp add: ex_eval)

lemma ex_fetch_empty:
  "fetch_frame (ex_db [ex_loan ''L1'' EmptyCell ''Active'']) 738900 7 True = Inl TypeError"
  by (simp add: ex_eval sql_le_def)

text \<open>
  C3, as claimed, fails. On 2024-01-15 the window 3000000 puts the cutoff after
  9999-12-31 and the selector raises \<^verbatim>\<open>OverflowError\<close> instead of returning the due loans.
  With the window 7, a loan that is not paid and whose due date is stored as
  \<^verbatim>\<open>2024-01-22 00:00:00\<close>, the last day of the window, is not returned, although its due date
  is read as 2024-01-22 (the window 8 returns it with 7 days remaining) and the same loan
  stored as \<^verbatim>\<open>2024-01-22\<close> is returned.
\<close>

theorem selector_misses_window_and_timestamp:
  "fst (fetch_due_loans (ex_db ex_loans) 3000000 True (ex_world (\<lambda>k. 738900) None))
     = Inl OverflowError
   \<and> fst (fetch_due_loans (ex_db [ex_loan ''L1'' (StampCell 738907 ''00:00:00'') ''Active''])
           7 True (ex_world (\<lambda>k. 738900) None)) = Inr []
   \<and> fst (fetch_due_loans (ex_db [ex_loan ''L1'' (StampCell 738907 ''00:00:00'') ''Active''])
           8 True (ex_world (\<lambda>k. 738900) None)) = Inr [ex_row ''L1'' 7 ''Active'']
   \<and> fst (fetch_due_loans (ex_db [ex_loan ''L1'' (DateCell 738907) ''Active''])
           7 True (ex_world (\<lambda>k. 738900) None)) = Inr [ex_row ''L1'' 7 ''Active'']"
  by (simp add: fetch_due_loans_fst ex_world_def ex_fetch_overflow ex_fetch_stamp_7
      ex_fetch_stamp_8 ex_fetch_date_7)

text \<open>
  C3, amended. Let the date that \<^verbatim>\<open>fetch_due_loans\<close> reads be a \<^verbatim>\<open>datetime.date\<close> and let
  every row that the query selects store its due date as the ISO text of a date. When the
  window is at most 999999999 days in size and today plus the window is a date,
  \<^verbatim>\<open>fetch_due_loans\<close> returns, for either flag, the rows of the join (a loan with its customer
  and its branch) that the query selects, in ascending order of due date, rows of equal date
  in the order of the join; every returned row has a status other than Paid and a due date
  that is at most today plus the window, and at least today when overdue loans are excluded;
  and a row of the join that stores the ISO text of a date is selected exactly when it
  satisfies these conditions. When every loan stores such a text and has one customer and
  one branch, the returned loans are exactly the loans of the loans table that satisfy the
  conditions. For any other window \<^verbatim>\<open>fetch_due_loans\<close> raises \<^verbatim>\<open>OverflowError\<close>.
\<close>

theorem selector_returns_due_loans:
  assumes "today = clock w (clock_reads w)" and "valid_date today"
    and "\<forall>j \<in> set (joined db).
           where_clause inc today (today + days) j \<longrightarrow> is_date (due_date (fst j))"
  shows "(\<bar>days\<bar> \<le> 999999999 \<and> valid_date (today + days) \<longrightarrow>
          (\<exists>df. fst (fetch_due_loans db days inc w) = Inr df
            \<and> df = map (\<lambda>j. derive_row today (select_columns j) (due_key j))
                     (sort_key due_key
                        (filter (where_clause inc today (today + days)) (joined db)))
            \<and> sorted (map due df)
            \<and> (\<forall>r \<in> set df. status r \<noteq> ''Paid'' \<and> due r \<le> today + days
                                \<and> (inc \<or> today \<le> due r))
            \<and> (\<forall>j \<in> set (joined db). is_date (due_date (fst j)) \<longrightarrow>
                  (where_clause inc today (today + days) j
                     \<longleftrightarrow> loan_status (fst j) \<noteq> ''Paid'' \<and> due_key j \<le> today + days
                          \<and> (inc \<or> today \<le> due_key j)))
            \<and> ((\<forall>l \<in> set (loans db). is_date (due_date l)
                   \<and> (\<exists>c. filter (\<lambda>c. l_customer_id l = customer_id c) (customers db) = [c])
                   \<and> (\<exists>b. filter (\<lambda>b. l_branch_id l = branch_id b) (branches db) = [b]))
                 \<longrightarrow> map loan_ident df
                     = map loan_id
                         (sort_key (\<lambda>l. cell_day (due_date l))
                            (filter (\<lambda>l. loan_status l \<noteq> ''Paid''
                                          \<and> cell_day (due_date l) \<le> today + days
                                          \<and> (inc \<or> today \<le> cell_day (due_date l)))
                               (loans db))))))
         \<and> (\<not> (\<bar>days\<bar> \<le> 999999999 \<and> valid_date (today + days)) \<longrightarrow>
              fst (fetch_due_loans db days inc w) = Inl OverflowError)"
proof (intro conjI impI)
  assume "\<not> (\<bar>days\<bar> \<le> 999999999 \<and> valid_date (today + days))"
  then have "date_add today days = Inl OverflowError" by (simp add: date_add_def)
  then show "fst (fetch_due_loans db days inc w) = Inl OverflowError"
    unfolding fetch_due_loans_fst assms(1) [symmetric] by (rule fetch_frame_overflow)
next
  assume range: "\<bar>days\<bar> \<le> 999999999 \<and> valid_date (today + days)"
  then have cut: "date_add today days = Inr (today + days)" by (simp add: date_add_def)
  have vc: "valid_date (today + days)" using range by simp
  let ?P = "\<lambda>l. loan_status l \<noteq> ''Paid'' \<and> cell_day (due_date l) \<le> today + days
                 \<and> (inc \<or> today \<le> cell_day (due_date l))"
  let ?sel = "sort_key due_key (filter (where_clause inc today (today + days)) (joined db))"
  let ?df = "map (\<lambda>j. derive_row today (select_columns j) (due_key j)) ?sel"
  have k: "due_key = (\<lambda>j. cell_day (due_date (fst j)))"
    by (rule ext) (simp add: due_key_def)
  have frame: "fetch_frame db today days inc = Inr ?df"
    using fetch_frame_selected [OF cut assms(3)] .
  have res: "fst (fetch_due_loans db days inc w) = Inr ?df"
    using frame unfolding fetch_due_loans_fst assms(1) [symmetric] .
  have dues: "map due ?df = map due_key ?sel"
    by (simp add: derive_row_fields)
  have srt: "sorted (map due ?df)"
    unfolding dues by (rule sorted_sort_key)
  have rows: "\<forall>r \<in> set ?df. status r \<noteq> ''Paid'' \<and> due r \<le> today + days \<and> (inc \<or> today \<le> due r)"
    using fetch_frame_rows [OF frame] fetch_frame_rows_from [OF frame _ assms(2)] by blast
  have iff: "\<forall>j \<in> set (joined db). is_date (due_date (fst j)) \<longrightarrow>
               (where_clause inc today (today + days) j
                  \<longleftrightarrow> loan_status (fst j) \<noteq> ''Paid'' \<and> due_key j \<le> today + days
                       \<and> (inc \<or> today \<le> due_key j))"
    using where_clause_dates [OF _ assms(2) vc] by blast
  have ids: "map loan_ident ?df = map loan_id (sort_key (\<lambda>l. cell_day (due_date l)) (filter ?P (loans db)))"
    if all: "\<forall>l \<in> set (loans db). is_date (due_date l)
          \<and> (\<exists>c. filter (\<lambda>c. l_customer_id l = customer_id c) (customers db) = [c])
          \<and> (\<exists>b. filter (\<lambda>b. l_branch_id l = branch_id b) (branches db) = [b])"
  proof -
    have dates: "\<forall>j \<in> set (joined db). is_date (due_date (fst j))"
      using all joined_loans by blast
    have f: "filter (where_clause inc today (today + days)) (joined db)
               = filter (\<lambda>j. ?P (fst j)) (joined db)"
      by (rule filter_cong) (simp_all add: dates where_clause_dates [OF _ assms(2) vc] k)
    have "map loan_ident ?df = map loan_id (map fst ?sel)"
      by (simp add: derive_row_fields select_columns_fields)
    also have "map fst ?sel = sort_key (\<lambda>l. cell_day (due_date l)) (filter ?P (map fst (joined db)))"
      unfolding k f
      using map_fst_sort_key [of "\<lambda>l. cell_day (due_date l)" "filter (\<lambda>j. ?P (fst j)) (joined db)"]
        map_fst_filter [of ?P "joined db"]
      by simp
    also have "map fst (joined db) = loans db"
      using all by (intro joined_one_row_per_loan) blast
    finally show ?thesis .
  qed
  show "\<exists>df. fst (fetch_due_loans db days inc w) = Inr df
            \<and> df = map (\<lambda>j. derive_row today (select_columns j) (due_key j))
                     (sort_key due_key
                        (filter (where_clause inc today (today + days)) (joined db)))
            \<and> sorted (map due df)
            \<and> (\<forall>r \<in> set df. status r \<noteq> ''Paid'' \<and> due r \<le> today + days
                                \<and> (inc \<or> today \<le> due r))
            \<and> (\<forall>j \<in> set (joined db). is_date (due_date (fst j)) \<longrightarrow>
                  (where_clause inc today (today + days) j
                     \<longleftrightarrow> loan_status (fst j) \<noteq> ''Paid'' \<and> due_key j \<le> today + days
                          \<and> (inc \<or> today \<le> due_key j)))
            \<and> ((\<forall>l \<in> set (loans db). is_date (due_date l)
                   \<and> (\<exists>c. filter (\<lambda>c. l_customer_id l = customer_id c) (customers db) = [c])
                   \<and> (\<exists>b. filter (\<lambda>b. l_branch_id l = branch_id b) (branches db) = [b]))
                 \<longrightarrow> map loan_ident df
                     = map loan_id
                         (sort_key (\<lambda>l. cell_day (due_date l))
                            (filter (\<lambda>l. loan_status l \<noteq> ''Paid''
                                          \<and> cell_day (due_date l) \<le> today + days
                                          \<and> (inc \<or> today \<le> cell_day (due_date l)))
                               (loans db))))"
    using res srt rows iff ids by blast
qed

theorem selector_returns_due_loans_witness:
  "valid_date 738900 \<and> \<bar>7::int\<bar> \<le> 999999999 \<and> valid_date (738900 + 7)
   \<and> list_all (\<lambda>j. is_date (due_date (fst j))) (joined (ex_db ex_loans))
   \<and> fst (fetch_due_loans (ex_db ex_loans) 7 True (ex_world (\<lambda>k. 738900) None))
       = Inr [ex_row ''L2'' (- 10) ''Overdue'', ex_row ''L5'' 0 ''Active'',
              ex_row ''L1'' 2 ''Active'']
   \<and> sorted (map due [ex_row ''L2'' (- 10) ''Overdue'', ex_row ''L5'' 0 ''Active'',
                          ex_row ''L1'' 2 ''Active''])
   \<and> fst (fetch_due_loans (ex_db ex_loans) 3000000 True (ex_world (\<lambda>k. 738900) None))
       = Inl OverflowError"
proof -
  let ?w = "ex_world (\<lambda>k. 738900) None"
  have v: "valid_date 738900" "\<bar>7::int\<bar> \<le> 999999999 \<and> valid_date (738900 + 7)"
    "\<not> (\<bar>3000000::int\<bar> \<le> 999999999 \<and> valid_date (738900 + 3000000))"
    by (simp_all add: valid_date_def MAXORDINAL_def)
  have d: "\<forall>j \<in> set (joined (ex_db ex_loans)). is_date (due_date (fst j))"
    by (simp add: joined_def ex_db_def ex_loans_def ex_loan_def is_date_def valid_date_def
        MAXORDINAL_def)
  then have d': "\<forall>j \<in> set (joined (ex_db ex_loans)).
                   where_clause True 738900 (738900 + n) j \<longrightarrow> is_date (due_date (fst j))" for n
    by blast
  have t: "738900 = clock ?w (clock_reads ?w)"
    by (simp add: ex_world_def)
  have f: "fst (fetch_due_loans (ex_db ex_loans) 7 True ?w)
             = fetch_frame (ex_db ex_loans) 738900 7 True"
    by (simp add: fetch_due_loans_fst ex_world_def)
  from selector_returns_due_loans [OF t v(1) d', of 7] v(2)
  obtain df where df: "fst (fetch_due_loans (ex_db ex_loans) 7 True ?w) = Inr df"
    and s: "sorted (map due df)"
    by blast
  have e: "df = [ex_row ''L2'' (- 10) ''Overdue'', ex_row ''L5'' 0 ''Active'',
                 ex_row ''L1'' 2 ''Active'']"
    using df f ex_fetch_7 by simp
  have o: "fst (fetch_due_loans (ex_db ex_loans) 3000000 True ?w) = Inl OverflowError"
    using selector_returns_due_loans [OF t v(1) d', of 3000000] v(3) by blast
  have a: "list_all (\<lambda>j. is_date (due_date (fst j))) (joined (ex_db ex_loans))"
    using d by (simp add: list_all_iff)
  show ?thesis
    using v(1,2) a df s o unfolding e by blast
qed

subsection \<open>A due date that is no calendar date\<close>

lemma filename_20241228: "report_filename 739248 = ''reports/Loans_Due_Report_20241228.xlsx''"
  by code_simp

text \<open>
  C5, as claimed, fails. With one loan due on 2024-12-30 and one whose due date is the text
  \<^verbatim>\<open>2024-13-45\<close>, both selected on 2024-12-28, the date conversion raises and the run ends
  with that exception: no file is written and nothing is sent, although the first loan alone
  gives a frame of one row.
\<close>

theorem unparsable_row_aborts_run:
  "fetch_frame (ex_db ex_loans_bad) 739248 7 True = Inl (ParserError ''2024-13-45'')
   \<and> fetch_frame (ex_db [ex_loan ''L1'' (DateCell 739250) ''Active'']) 739248 7 True
       = Inr [\<lparr> customer_name = ''Ann Wanjiru'', loan_ident = ''L1'', amount = 1000,
                outstanding = 400, due = 739250, days_remaining = 2, phone = ''0700000001'',
                email_address = ''ann@example.org'', officer_branch = ''Omar / Thika'',
                status = ''Active'' \<rparr>]
   \<and> fst (main (ex_cfg True) (ex_db ex_loans_bad) (ex_world (\<lambda>k. 739248) None))
       = Inl (ParserError ''2024-13-45'')
   \<and> sent (snd (main (ex_cfg True) (ex_db ex_loans_bad) (ex_world (\<lambda>k. 739248) None))) = []
   \<and> files (snd (main (ex_cfg True) (ex_db ex_loans_bad) (ex_world (\<lambda>k. 739248) None)))
        ''reports/Loans_Due_Report_20241228.xlsx'' = None"
proof -
  have f: "fetch_frame (ex_db ex_loans_bad)
             (clock (ex_world (\<lambda>k. 739248) None) (clock_reads (ex_world (\<lambda>k. 739248) None)))
             (fallback 7 (days_lookahead (ex_cfg True)))
             (fallback True (include_overdue (ex_cfg True)))
           = Inl (ParserError ''2024-13-45'')"
    using ex_fetch_bad by (simp add: ex_world_def ex_cfg_def fallback_def)
  show ?thesis
    using main_fetch_failed(1-3) [OF f] ex_fetch_bad ex_fetch_good
    by (simp add: ex_world_def)
qed

text \<open>
  C5, amended. When a selected row has a due date that is no calendar date,
  \<^verbatim>\<open>fetch_due_loans\<close> raises and the run ends with its exception: no row is skipped, the
  files and the messages sent are as before the run, and the log has the opening banner
  only. The exception is the error of the date conversion, whenever the cutoff (today plus
  the window) is a date; otherwise it is the \<^verbatim>\<open>OverflowError\<close> of the cutoff.
\<close>

theorem unparsable_due_date_aborts:
  assumes "j \<in> set (joined db)"
    and "due_date (fst j) = TextCell s"
    and "where_clause (fallback True (include_overdue cfg)) (clock w (clock_reads w))
           (clock w (clock_reads w) + fallback 7 (days_lookahead cfg)) j"
  shows "\<exists>e. fst (fetch_due_loans db (fallback 7 (days_lookahead cfg))
                    (fallback True (include_overdue cfg)) w) = Inl e
              \<and> fst (main cfg db w) = Inl e
              \<and> files (snd (main cfg db w)) = files w
              \<and> sent (snd (main cfg db w)) = sent w
              \<and> log (snd (main cfg db w))
                  = log (banner (''  LOAN MONITORING SYSTEM '' @ EM_DASH @ '' Starting Run'') w)
              \<and> (date_add (clock w (clock_reads w)) (fallback 7 (days_lookahead cfg))
                    = Inr (clock w (clock_reads w) + fallback 7 (days_lookahead cfg))
                  \<longrightarrow> (\<exists>s'. e = ParserError s'))
              \<and> (date_add (clock w (clock_reads w)) (fallback 7 (days_lookahead cfg))
                    \<noteq> Inr (clock w (clock_reads w) + fallback 7 (days_lookahead cfg))
                  \<longrightarrow> e = OverflowError)"
proof (cases "date_add (clock w (clock_reads w)) (fallback 7 (days_lookahead cfg))
                = Inr (clock w (clock_reads w) + fallback 7 (days_lookahead cfg))")
  case True
  obtain s' where f: "fetch_frame db (clock w (clock_reads w)) (fallback 7 (days_lookahead cfg))
                        (fallback True (include_overdue cfg)) = Inl (ParserError s')"
    using fetch_frame_text [OF assms(1) assms(3) assms(2) True] by blast
  have "fst (fetch_due_loans db (fallback 7 (days_lookahead cfg))
               (fallback True (include_overdue cfg)) w) = Inl (ParserError s')"
    using f by (simp add: fetch_due_loans_fst)
  then show ?thesis
    using main_fetch_failed [OF f] True by blast
next
  case False
  then have "date_add (clock w (clock_reads w)) (fallback 7 (days_lookahead cfg))
               = Inl OverflowError"
    by (simp add: date_add_def split: if_splits)
  then have f: "fetch_frame db (clock w (clock_reads w)) (fallback 7 (days_lookahead cfg))
                  (fallback True (include_overdue cfg)) = Inl OverflowError"
    by (rule fetch_frame_overflow)
  have "fst (fetch_due_loans db (fallback 7 (days_lookahead cfg))
               (fallback True (include_overdue cfg)) w) = Inl OverflowError"
    using f by (simp add: fetch_due_loans_fst)
  then show ?thesis
    using main_fetch_failed [OF f] False by blast
qed

theorem unparsable_due_date_aborts_witness:
  "(ex_loan ''L6'' (TextCell ''2024-13-45'') ''Active'',
      \<lparr> customer_id = 1, full_name = ''Ann Wanjiru'', phone_number = ''0700000001'',
        email = ''ann@example.org'' \<rparr>,
      \<lparr> branch_id = 1, loan_officer = ''Omar'', branch_name = ''Thika'' \<rparr>)
     \<in> set (joined (ex_db ex_loans_bad))
   \<and> where_clause True 739248 (739248 + 7)
        (ex_loan ''L6'' (TextCell ''2024-13-45'') ''Active'',
         \<lparr> customer_id = 1, full_name = ''Ann Wanjiru'', phone_number = ''0700000001'',
           email = ''ann@example.org'' \<rparr>,
         \<lparr> branch_id = 1, loan_officer = ''Omar'', branch_name = ''Thika'' \<rparr>)
   \<and> date_add 739248 7 = Inr (739248 + 7)
   \<and> (\<exists>s'. fst (main (ex_cfg True) (ex_db ex_loans_bad) (ex_world (\<lambda>k. 739248) None))
               = Inl (ParserError s')
            \<and> files (snd (main (ex_cfg True) (ex_db ex_loans_bad) (ex_world (\<lambda>k. 739248) None)))
               = Map.empty
            \<and> sent (snd (main (ex_cfg True) (ex_db ex_loans_bad) (ex_world (\<lambda>k. 739248) None)))
               = [])"
proof -
  let ?j = "(ex_loan ''L6'' (TextCell ''2024-13-45'') ''Active'',
      \<lparr> customer_id = 1, full_name = ''Ann Wanjiru'', phone_number = ''0700000001'',
        email = ''ann@example.org'' \<rparr>,
      \<lparr> branch_id = 1, loan_officer = ''Omar'', branch_name = ''Thika'' \<rparr>)"
  let ?w = "ex_world (\<lambda>k. 739248) None"
  have a: "?j \<in> set (joined (ex_db ex_loans_bad))"
    by (simp add: joined_def ex_db_def ex_loans_bad_def ex_loan_def)
  have b: "due_date (fst ?j) = TextCell ''2024-13-45''"
    by (simp add: ex_loan_def)
  have c: "where_clause True 739248 (739248 + 7) ?j"
    by (simp add: where_clause_def due_filter_def ex_loan_def sql_le_text iso_20250104
        less_eq_char_def less_char_def)
  have c': "where_clause (fallback True (include_overdue (ex_cfg True)))
              (clock ?w (clock_reads ?w))
              (clock ?w (clock_reads ?w) + fallback 7 (days_lookahead (ex_cfg True))) ?j"
    using c by (simp add: ex_world_def ex_cfg_def fallback_def)
  have d: "date_add 739248 7 = Inr (739248 + 7)"
    by (simp add: date_add_def valid_date_def MAXORDINAL_def)
  have d': "date_add (clock ?w (clock_reads ?w)) (fallback 7 (days_lookahead (ex_cfg True)))
              = Inr (clock ?w (clock_reads ?w) + fallback 7 (days_lookahead (ex_cfg True)))"
    using d by (simp add: ex_world_def ex_cfg_def fallback_def)
  from unparsable_due_date_aborts [OF a b c'] d'
  obtain s' where m: "fst (main (ex_cfg True) (ex_db ex_loans_bad) ?w) = Inl (ParserError s')"
    and fl: "files (snd (main (ex_cfg True) (ex_db ex_loans_bad) ?w)) = files ?w"
    and st: "sent (snd (main (ex_cfg True) (ex_db ex_loans_bad) ?w)) = sent ?w"
    by blast
  have fw: "files ?w = Map.empty" and sw: "sent ?w = []"
    by (simp_all add: ex_world_def)
  have e: "\<exists>s'. fst (main (ex_cfg True) (ex_db ex_loans_bad) ?w) = Inl (ParserError s')
            \<and> files (snd (main (ex_cfg True) (ex_db ex_loans_bad) ?w)) = Map.empty
            \<and> sent (snd (main (ex_cfg True) (ex_db ex_loans_bad) ?w)) = []"
    using m fl st fw sw by auto
  show ?thesis
    using a c d e by blast
qed

subsection \<open>The outcome of a run\<close>

lemma world_after_banner:
  "files (banner s w) = files w" "sent (banner s w) = sent w"
  "files (log_info s w) = files w" "sent (log_info s w) = sent w"
  "files (log_error s w) = files w" "sent (log_error s w) = sent w"
  "log (log_info s w) = log w @ [(INFO, s)]" "log (log_error s w) = log w @ [(ERROR, s)]"
  by (simp_all add: banner_def log_info_def log_error_def)

lemma main_delivered:
  assumes "fetch_frame db (clock w (clock_reads w)) (fallback 7 (days_lookahead cfg))
             (fallback True (include_overdue cfg)) = Inr df"
    and "df \<noteq> []"
    and "sender_email cfg = Some sender" "sender_password cfg = Some pw"
    and "recipient_email cfg = Some rcpt"
    and "smtp_fault w = None"
  shows "fst (main cfg db w) = Inr ()"
    and "sent (snd (main cfg db w)) = sent w @
           [\<lparr> m_subject = fallback ''Loan Due Date Alert'' (email_subject cfg) @ '' '' @ EN_DASH
                            @ '' '' @ strftime ''%d %b %Y'' (clock w (Suc (Suc (clock_reads w)))),
              m_from = fallback ''Loan Management System'' (company_name cfg) @ '' <'' @ sender @ ''>'',
              m_to = fallback ''Credit and Loans Department'' (recipient_name cfg) @ '' <'' @ rcpt @ ''>'',
              m_html = email_body_of df (fallback ''Loan Management System'' (company_name cfg))
                         (clock w (Suc (Suc (Suc (clock_reads w))))),
              m_attachment_name = basename (report_filename (clock w (Suc (clock_reads w)))),
              m_attachment = build_workbook df
                               (fallback ''Loan Management System'' (company_name cfg))
                               (clock w (Suc (clock_reads w))) \<rparr>]"
proof -
  define company where "company = fallback ''Loan Management System'' (company_name cfg)"
  define path where "path = report_filename (clock w (Suc (clock_reads w)))"
  define w2 where "w2 = snd (generate_excel_report df company
      (snd (fetch_due_loans db (fallback 7 (days_lookahead cfg))
              (fallback True (include_overdue cfg))
              (banner (''  LOAN MONITORING SYSTEM '' @ EM_DASH @ '' Starting Run'') w))))"
  define wb where "wb = build_workbook df company (clock w (Suc (clock_reads w)))"
  define res where "res = send_email cfg path df w2"
  note r = main_rendered [OF assms(1,2), folded company_def, folded w2_def path_def,
      folded wb_def res_def]
  have f2: "files w2 path = Some wb" using r(2) by simp
  have s2: "smtp_fault w2 = None" using r(5) assms(6) by simp
  note d = send_email_delivered [OF assms(3,4,5) f2 s2, of df, folded res_def]
  obtain r3 w3 where res: "res = (r3, w3)" by (cases res)
  have r3: "r3 = Inr ()" using d(1) res by simp
  have sent3: "sent w3 = sent w @
           [\<lparr> m_subject = fallback ''Loan Due Date Alert'' (email_subject cfg) @ '' '' @ EN_DASH
                            @ '' '' @ strftime ''%d %b %Y'' (clock w (Suc (Suc (clock_reads w)))),
              m_from = fallback ''Loan Management System'' (company_name cfg) @ '' <'' @ sender @ ''>'',
              m_to = fallback ''Credit and Loans Department'' (recipient_name cfg) @ '' <'' @ rcpt @ ''>'',
              m_html = email_body_of df (fallback ''Loan Management System'' (company_name cfg))
                         (clock w (Suc (Suc (Suc (clock_reads w))))),
              m_attachment_name = basename path,
              m_attachment = wb \<rparr>]"
    using d(2) res by (simp add: r(3,4,6))
  show "fst (main cfg db w) = Inr ()"
    by (simp add: r(1) res r3)
  have "sent (snd (main cfg db w)) = sent w3"
    by (simp add: r(1) res r3 world_after_banner)
  then show "sent (snd (main cfg db w)) = sent w @
           [\<lparr> m_subject = fallback ''Loan Due Date Alert'' (email_subject cfg) @ '' '' @ EN_DASH
                            @ '' '' @ strftime ''%d %b %Y'' (clock w (Suc (Suc (clock_reads w)))),
              m_from = fallback ''Loan Management System'' (company_name cfg) @ '' <'' @ sender @ ''>'',
              m_to = fallback ''Credit and Loans Department'' (recipient_name cfg) @ '' <'' @ rcpt @ ''>'',
              m_html = email_body_of df (fallback ''Loan Management System'' (company_name cfg))
                         (clock w (Suc (Suc (Suc (clock_reads w))))),
              m_attachment_name = basename (report_filename (clock w (Suc (clock_reads w)))),
              m_attachment = build_workbook df
                               (fallback ''Loan Management System'' (company_name cfg))
                               (clock w (Suc (clock_reads w))) \<rparr>]"
    by (simp add: sent3 wb_def company_def path_def)
qed

lemma ex_fetch_midnight:
  "fetch_frame (ex_db [ex_loan ''L1'' (DateCell 738901) ''Active'']) 738900 7 True
     = Inr [ex_row ''L1'' 1 ''Active'']"
  by (simp add: ex_eval)

lemma dates_20240116:
  "strftime ''%d %b %Y'' 738901 = ''16 Jan 2024''"
  "strftime ''%d %B %Y'' 738901 = ''16 January 2024''"
  "strftime ''%A, %d %B %Y'' 738901 = ''Tuesday, 16 January 2024''"
  "strftime ''%d %b %Y'' 738900 = ''15 Jan 2024''"
  by code_simp+

text \<open>
  C7. In a run that has rendered its report (the selection returned a frame with rows),
  whenever the run ends with an exception the workbook is on disk at the path of the report,
  nothing was sent, the failure is logged and the last log line reports the path; a failure
  of the mail transport ends the run with that exception. After the run the file is absent
  exactly when the delivery succeeded and \<^verbatim>\<open>save_local_copy\<close> is set to false.
\<close>

theorem failed_delivery_keeps_artifact:
  assumes "fetch_frame db (clock w (clock_reads w)) (fallback 7 (days_lookahead cfg))
             (fallback True (include_overdue cfg)) = Inr df"
    and "df \<noteq> []"
    and "path = report_filename (clock w (Suc (clock_reads w)))"
  shows "(\<forall>e. fst (main cfg db w) = Inl e \<longrightarrow>
            files (snd (main cfg db w)) path
              = Some (build_workbook df (fallback ''Loan Management System'' (company_name cfg))
                        (clock w (Suc (clock_reads w))))
            \<and> sent (snd (main cfg db w)) = sent w
            \<and> (ERROR, CROSS_MARK @ ''  Failed to send email: '' @ str_error e)
                \<in> set (log (snd (main cfg db w)))
            \<and> last (log (snd (main cfg db w))) = (INFO, ''Report saved locally at: '' @ path))
         \<and> (sender_email cfg \<noteq> None \<and> sender_password cfg \<noteq> None
              \<and> recipient_email cfg \<noteq> None \<and> smtp_fault w = Some f
              \<longrightarrow> fst (main cfg db w) = Inl (SMTPException f))
         \<and> (files (snd (main cfg db w)) path = None
              \<longleftrightarrow> fst (main cfg db w) = Inr () \<and> save_local_copy cfg = Some False)"
proof -
  define company where "company = fallback ''Loan Management System'' (company_name cfg)"
  define w2 where "w2 = snd (generate_excel_report df company
      (snd (fetch_due_loans db (fallback 7 (days_lookahead cfg))
              (fallback True (include_overdue cfg))
              (banner (''  LOAN MONITORING SYSTEM '' @ EM_DASH @ '' Starting Run'') w))))"
  define wb where "wb = build_workbook df company (clock w (Suc (clock_reads w)))"
  define res where "res = send_email cfg path df w2"
  note r = main_rendered [OF assms(1,2), folded company_def, folded w2_def assms(3),
      folded wb_def res_def]
  have m: "main cfg db w =
           (case res of
              (Inl e, w3) \<Rightarrow>
                (Inl e,
                 log_info (''Report saved locally at: '' @ path)
                   (log_error (CROSS_MARK @ ''  Failed to send email: '' @ str_error e) w3))
            | (Inr u, w3) \<Rightarrow>
                (Inr (),
                 banner ''  Run complete.''
                   (if \<not> fallback True (save_local_copy cfg) \<and> files w3 path \<noteq> None
                    then log_info ''Local report copy removed (save_local_copy=false).''
                           (w3\<lparr>files := (files w3)(path := None)\<rparr>)
                    else w3)))"
    using r(1) .
  have f2: "files w2 path = Some wb" using r(2) by simp
  have f3: "files (snd res) path = Some wb"
    using f2 by (simp add: res_def send_email_files)
  have keep: "fallback True (save_local_copy cfg) \<longleftrightarrow> save_local_copy cfg \<noteq> Some False"
    by (cases "save_local_copy cfg") (auto simp: fallback_def)
  obtain r3 w3 where res: "res = (r3, w3)" by (cases res)
  have fw3: "files w3 path = Some wb" using f3 res by simp
  show ?thesis
  proof (cases r3)
    case (Inl e)
    have s3: "sent w3 = sent w"
      using send_email_failed_sent [of cfg path df w2 e] res Inl r(6) by (simp add: res_def)
    have fault: "fst (main cfg db w) = Inl (SMTPException f)"
      if "sender_email cfg \<noteq> None" "sender_password cfg \<noteq> None" "recipient_email cfg \<noteq> None"
        "smtp_fault w = Some f"
      using send_email_smtp_fault [of cfg w2 path f df] that f2 r(5) res Inl m
      by (simp add: res_def)
    show ?thesis
      using fault by (simp add: m res Inl world_after_banner fw3 s3 wb_def company_def)
  next
    case (Inr u)
    have nofault: "smtp_fault w \<noteq> Some f"
      if "sender_email cfg \<noteq> None" "sender_password cfg \<noteq> None" "recipient_email cfg \<noteq> None"
      using send_email_smtp_fault [of cfg w2 path f df] that f2 r(5) res Inr
      by (auto simp add: res_def)
    show ?thesis
      using nofault by (auto simp add: m res Inr world_after_banner fw3 keep)
  qed
qed

theorem failed_delivery_keeps_artifact_witness:
  "fetch_frame (ex_db ex_loans) 738900 7 True
     = Inr [ex_row ''L2'' (- 10) ''Overdue'', ex_row ''L5'' 0 ''Active'', ex_row ''L1'' 2 ''Active'']
   \<and> fst (main (ex_cfg False) (ex_db ex_loans)
             (ex_world (\<lambda>k. 738900) (Some ''535 Authentication failed'')))
       = Inl (SMTPException ''535 Authentication failed'')
   \<and> files (snd (main (ex_cfg False) (ex_db ex_loans)
                    (ex_world (\<lambda>k. 738900) (Some ''535 Authentication failed''))))
        ''reports/Loans_Due_Report_20240115.xlsx''
       = Some (build_workbook
                 [ex_row ''L2'' (- 10) ''Overdue'', ex_row ''L5'' 0 ''Active'',
                  ex_row ''L1'' 2 ''Active'']
                 ''Maisha Bora Sacco'' 738900)
   \<and> last (log (snd (main (ex_cfg False) (ex_db ex_loans)
                        (ex_world (\<lambda>k. 738900) (Some ''535 Authentication failed'')))))
       = (INFO, ''Report saved locally at: reports/Loans_Due_Report_20240115.xlsx'')"
proof -
  let ?df = "[ex_row ''L2'' (- 10) ''Overdue'', ex_row ''L5'' 0 ''Active'', ex_row ''L1'' 2 ''Active'']"
  let ?w = "ex_world (\<lambda>k. 738900) (Some ''535 Authentication failed'')"
  let ?cfg = "ex_cfg False"
  have f: "fetch_frame (ex_db ex_loans) (clock ?w (clock_reads ?w))
             (fallback 7 (days_lookahead ?cfg))
             (fallback True (include_overdue ?cfg)) = Inr ?df"
    using ex_fetch_7 by (simp add: ex_world_def ex_cfg_def fallback_def)
  have n: "?df \<noteq> []" by simp
  have p: "''reports/Loans_Due_Report_20240115.xlsx''
             = report_filename (clock ?w (Suc (clock_reads ?w)))"
    using filename_20240115 by (simp add: ex_world_def)
  have o: "sender_email ?cfg \<noteq> None \<and> sender_password ?cfg \<noteq> None
           \<and> recipient_email ?cfg \<noteq> None \<and> smtp_fault ?w = Some ''535 Authentication failed''"
    by (simp add: ex_cfg_def ex_world_def)
  note t = failed_delivery_keeps_artifact [OF f n p, of "''535 Authentication failed''"]
  have e: "fst (main ?cfg (ex_db ex_loans) ?w) = Inl (SMTPException ''535 Authentication failed'')"
    using t o by blast
  have k: "files (snd (main ?cfg (ex_db ex_loans) ?w)) ''reports/Loans_Due_Report_20240115.xlsx''
             = Some (build_workbook ?df (fallback ''Loan Management System'' (company_name ?cfg))
                       (clock ?w (Suc (clock_reads ?w))))"
    and l: "last (log (snd (main ?cfg (ex_db ex_loans) ?w)))
             = (INFO, ''Report saved locally at: '' @ ''reports/Loans_Due_Report_20240115.xlsx'')"
    using t e by blast+
  have c: "fallback ''Loan Management System'' (company_name ?cfg) = ''Maisha Bora Sacco''"
    "clock ?w (Suc (clock_reads ?w)) = 738900"
    by (simp_all add: ex_cfg_def ex_world_def fallback_def)
  show ?thesis
    using ex_fetch_7 e k l unfolding c by simp
qed

text \<open>
  C1, as claimed, fails. The clock passes midnight between the selection and the
  rendering: the loan due on 2024-01-16 is selected on 2024-01-15 with 1 day remaining,
  while the workbook, the subject and the body are dated 2024-01-16, the due date itself.
\<close>

theorem report_date_differs_from_selection_date:
  "fst (fetch_due_loans (ex_db [ex_loan ''L1'' (DateCell 738901) ''Active'']) 7 True
          (ex_world (\<lambda>k. if k = 0 then 738900 else 738901) None))
     = Inr [ex_row ''L1'' 1 ''Active'']
   \<and> due (ex_row ''L1'' 1 ''Active'') = 738901
   \<and> days_remaining (ex_row ''L1'' 1 ''Active'') = 1
   \<and> map m_subject
        (sent (snd (main (ex_cfg True) (ex_db [ex_loan ''L1'' (DateCell 738901) ''Active''])
                      (ex_world (\<lambda>k. if k = 0 then 738900 else 738901) None))))
       = [''Loan Due Date Alert '' @ EN_DASH @ '' 16 Jan 2024'']
   \<and> map (\<lambda>m. map_of (wb_summary (m_attachment m)) ''Report Date'')
        (sent (snd (main (ex_cfg True) (ex_db [ex_loan ''L1'' (DateCell 738901) ''Active''])
                      (ex_world (\<lambda>k. if k = 0 then 738900 else 738901) None))))
       = [Some (PStr ''16 January 2024'')]
   \<and> map (\<lambda>m. eb_generated (m_html m))
        (sent (snd (main (ex_cfg True) (ex_db [ex_loan ''L1'' (DateCell 738901) ''Active''])
                      (ex_world (\<lambda>k. if k = 0 then 738900 else 738901) None))))
       = [''Tuesday, 16 January 2024'']
   \<and> strftime ''%d %B %Y'' 738901 = ''16 January 2024''
   \<and> days_remaining (ex_row ''L1'' 1 ''Active'') \<noteq> due (ex_row ''L1'' 1 ''Active'') - 738901"
proof -
  let ?db = "ex_db [ex_loan ''L1'' (DateCell 738901) ''Active'']"
  let ?w = "ex_world (\<lambda>k. if k = 0 then 738900 else 738901) None"
  have f: "fetch_frame ?db (clock ?w (clock_reads ?w)) (fallback 7 (days_lookahead (ex_cfg True)))
             (fallback True (include_overdue (ex_cfg True))) = Inr [ex_row ''L1'' 1 ''Active'']"
    using ex_fetch_midnight by (simp add: ex_world_def ex_cfg_def fallback_def)
  have n: "[ex_row ''L1'' 1 ''Active''] \<noteq> []" by simp
  have o: "sender_email (ex_cfg True) = Some ''info@example.org''"
    "sender_password (ex_cfg True) = Some ''secret''"
    "recipient_email (ex_cfg True) = Some ''credit@example.org''"
    "smtp_fault ?w = None"
    by (simp_all add: ex_cfg_def ex_world_def)
  note m = main_delivered(2) [OF f n o]
  have fd: "fst (fetch_due_loans ?db 7 True ?w) = Inr [ex_row ''L1'' 1 ''Active'']"
    using ex_fetch_midnight by (simp add: fetch_due_loans_def date_today_def ex_world_def)
  have c: "clock ?w (Suc (clock_reads ?w)) = 738901"
    "clock ?w (Suc (Suc (clock_reads ?w))) = 738901"
    "clock ?w (Suc (Suc (Suc (clock_reads ?w)))) = 738901" "sent ?w = []"
    by (simp_all add: ex_world_def)
  show ?thesis
    unfolding m c
    by (simp add: fd dates_20240116 ex_cfg_def fallback_def build_workbook_def summary_data_def
        email_body_of_def Let_def ex_row_def del: strftime.simps)
qed

text \<open>
  C1, amended. \<^verbatim>\<open>fetch_due_loans\<close> reads the date once: every row has days remaining
  equal to its due date minus that date, which is also the date of the cutoff. The later
  stages read the clock again: in a run that delivers, the workbook carries the date of the
  second read, the subject that of the third and the body that of the fourth. They are
  the date of the selection when the clock gives the same date at the four reads.
\<close>

theorem reference_dates_of_a_run:
  assumes "fetch_frame db (clock w (clock_reads w)) (fallback 7 (days_lookahead cfg))
             (fallback True (include_overdue cfg)) = Inr df"
    and "df \<noteq> []"
    and "sender_email cfg = Some sender" "sender_password cfg = Some pw"
    and "recipient_email cfg = Some rcpt"
    and "smtp_fault w = None"
  shows "(\<forall>r \<in> set df. days_remaining r = due r - clock w (clock_reads w)
                       \<and> due r \<le> clock w (clock_reads w) + fallback 7 (days_lookahead cfg))
         \<and> fst (main cfg db w) = Inr ()
         \<and> (\<exists>m. sent (snd (main cfg db w)) = sent w @ [m]
                \<and> m_attachment m
                    = build_workbook df (fallback ''Loan Management System'' (company_name cfg))
                        (clock w (Suc (clock_reads w)))
                \<and> m_attachment_name m
                    = basename (report_filename (clock w (Suc (clock_reads w))))
                \<and> m_subject m
                    = fallback ''Loan Due Date Alert'' (email_subject cfg) @ '' '' @ EN_DASH @ '' ''
                      @ strftime ''%d %b %Y'' (clock w (Suc (Suc (clock_reads w))))
                \<and> m_html m
                    = email_body_of df (fallback ''Loan Management System'' (company_name cfg))
                        (clock w (Suc (Suc (Suc (clock_reads w))))))"
proof -
  have rows: "\<forall>r \<in> set df. days_remaining r = due r - clock w (clock_reads w)
                       \<and> due r \<le> clock w (clock_reads w) + fallback 7 (days_lookahead cfg)"
    using fetch_frame_rows [OF assms(1)] by blast
  show ?thesis
    using rows main_delivered [OF assms] by simp
qed

theorem reference_dates_of_a_run_witness:
  "fetch_frame (ex_db ex_loans) 738900 7 True
     = Inr [ex_row ''L2'' (- 10) ''Overdue'', ex_row ''L5'' 0 ''Active'', ex_row ''L1'' 2 ''Active'']
   \<and> fst (main (ex_cfg True) (ex_db ex_loans) (ex_world (\<lambda>k. 738900) None)) = Inr ()
   \<and> map m_subject (sent (snd (main (ex_cfg True) (ex_db ex_loans) (ex_world (\<lambda>k. 738900) None))))
       = [''Loan Due Date Alert '' @ EN_DASH @ '' 15 Jan 2024'']
   \<and> list_all (\<lambda>r. days_remaining r = due r - 738900)
         [ex_row ''L2'' (- 10) ''Overdue'', ex_row ''L5'' 0 ''Active'', ex_row ''L1'' 2 ''Active'']"
proof -
  let ?df = "[ex_row ''L2'' (- 10) ''Overdue'', ex_row ''L5'' 0 ''Active'', ex_row ''L1'' 2 ''Active'']"
  let ?w = "ex_world (\<lambda>k. 738900) None"
  have f: "fetch_frame (ex_db ex_loans) (clock ?w (clock_reads ?w))
             (fallback 7 (days_lookahead (ex_cfg True)))
             (fallback True (include_overdue (ex_cfg True))) = Inr ?df"
    using ex_fetch_7 by (simp add: ex_world_def ex_cfg_def fallback_def)
  have n: "?df \<noteq> []" by simp
  have o: "sender_email (ex_cfg True) = Some ''info@example.org''"
    "sender_password (ex_cfg True) = Some ''secret''"
    "recipient_email (ex_cfg True) = Some ''credit@example.org''"
    "smtp_fault ?w = None"
    by (simp_all add: ex_cfg_def ex_world_def)
  from reference_dates_of_a_run [OF f n o]
  obtain m where rows: "\<forall>r \<in> set ?df. days_remaining r = due r - clock ?w (clock_reads ?w)"
    and ok: "fst (main (ex_cfg True) (ex_db ex_loans) ?w) = Inr ()"
    and s: "sent (snd (main (ex_cfg True) (ex_db ex_loans) ?w)) = sent ?w @ [m]"
    and subj: "m_subject m = fallback ''Loan Due Date Alert'' (email_subject (ex_cfg True))
                 @ '' '' @ EN_DASH @ '' ''
                 @ strftime ''%d %b %Y'' (clock ?w (Suc (Suc (clock_reads ?w))))"
    by blast
  have c: "clock ?w (clock_reads ?w) = 738900" "clock ?w (Suc (Suc (clock_reads ?w))) = 738900"
    "sent ?w = []"
    by (simp_all add: ex_world_def)
  have a: "list_all (\<lambda>r. days_remaining r = due r - 738900) ?df"
    using rows unfolding c by (simp add: list_all_iff)
  have subj': "m_subject m = ''Loan Due Date Alert '' @ EN_DASH @ '' 15 Jan 2024''"
    using subj
    by (simp add: c dates_20240116 ex_cfg_def fallback_def del: strftime.simps)
  have b: "map m_subject (sent (snd (main (ex_cfg True) (ex_db ex_loans) ?w)))
             = [''Loan Due Date Alert '' @ EN_DASH @ '' 15 Jan 2024'']"
    by (simp add: s c subj')
  show ?thesis
    using ex_fetch_7 ok a b by blast
qed

end
